theory Spec2Isabelle
  imports Complex_Main "HOL-Library.Sublist"
begin

section \<open>Conventions of the embedding\<close>

text \<open>
  The C++ sources are embedded shallowly.  A finite \<^verbatim>\<open>double\<close> or \<^verbatim>\<open>float\<close>
  is the real number it denotes (type \<open>double\<close>).  Where a value may be an
  infinity or a NaN (the result of a division, a pixel of a raster, a no-data value)
  it has the type \<open>ieee\<close> below, and where the code rounds an arithmetic result
  to an integer or stores a blended pixel, the operation rounds its exact result with
  a function \<open>rnd\<close> that is a parameter of the model, so that what is proved holds
  for the rounding of the machine.  An \<^verbatim>\<open>int\<close> is a mathematical integer in the
  range of 32 bits; the result of an \<^verbatim>\<open>int\<close> addition, subtraction or negation
  that can leave this range is wrapped by \<open>int32\<close>, and where the source
  converts an \<^verbatim>\<open>int\<close> to \<^verbatim>\<open>size_t\<close> the conversion modulo \<open>2 ^ 64\<close> is
  written out.  Every exception and every access outside a buffer is a value of the
  type \<open>error\<close>, and a function that can raise returns \<open>error + 'a\<close>.
\<close>

type_synonym double = real

datatype error =
    OutOfBounds
  | LengthError
  | RuntimeError
  | FloatToIntOverflow
  | NoSuchFile
  | NotEnoughMemory
  | InvalidArgument
  | IoError
  | FilesystemError
  | StoiFailure
  | DivisionByZero

text \<open>Sequencing of two steps that can fail: the second runs on the first's result.\<close>

definition and_then :: "error + 'a \<Rightarrow> ('a \<Rightarrow> error + 'b) \<Rightarrow> error + 'b" where
  "and_then r f = (case r of Inl e \<Rightarrow> Inl e | Inr v \<Rightarrow> f v)"

text \<open>
  A \<^verbatim>\<open>for\<close> loop over the values \<open>xs\<close> of its index whose body updates a state
  and can fail: the first failure ends the loop.
\<close>

fun for_each :: "('i \<Rightarrow> 's \<Rightarrow> error + 's) \<Rightarrow> 'i list \<Rightarrow> 's \<Rightarrow> error + 's" where
  "for_each body [] s = Inr s"
| "for_each body (x # xs) s =
     (case body x s of
        Inl e \<Rightarrow> Inl e
      | Inr s' \<Rightarrow> for_each body xs s')"

text \<open>
  Division of two finite doubles where the quotient is next converted to
  \<^verbatim>\<open>int\<close> (after \<^verbatim>\<open>std::round\<close>, \<^verbatim>\<open>std::floor\<close> or \<^verbatim>\<open>std::ceil\<close>):
  a zero divisor gives an infinity or a NaN, whose conversion is undefined, and the
  model reports the error at the division.
\<close>

definition ddiv :: "double \<Rightarrow> double \<Rightarrow> error + double" where
  "ddiv a b = (if b = 0 then Inl DivisionByZero else Inr (a / b))"

text \<open>\<^verbatim>\<open>std::round\<close>: to the nearest integer, halfway cases away from zero.\<close>

definition std_round :: "double \<Rightarrow> int" where
  "std_round x = (if 0 \<le> x then \<lfloor>x + 1 / 2\<rfloor> else \<lceil>x - 1 / 2\<rceil>)"

text \<open>
  \<^verbatim>\<open>static_cast<int>\<close> of an integral double: the value itself when it fits a
  32-bit \<^verbatim>\<open>int\<close>, undefined behaviour (an error here) otherwise.
\<close>

definition int_in_range :: "int \<Rightarrow> bool" where
  "int_in_range i = (- (2 ^ 31) \<le> i \<and> i < 2 ^ 31)"

definition cast_int :: "int \<Rightarrow> error + int" where
  "cast_int i = (if int_in_range i then Inr i else Inl FloatToIntOverflow)"

text \<open>
  Arithmetic on \<^verbatim>\<open>int\<close>: a result outside the 32 bits is undefined behaviour
  in C++; the compiled code wraps it modulo \<open>2 ^ 32\<close>, and so does the model.
\<close>

definition int32 :: "int \<Rightarrow> int" where
  "int32 i = (i + 2 ^ 31) mod 2 ^ 32 - 2 ^ 31"

text \<open>
  A \<^verbatim>\<open>double\<close> or \<^verbatim>\<open>float\<close> of IEEE 754 with its special values.  The sign
  of a zero is not represented: it shows only in the sign of a quotient by zero, and
  every such quotient of this program is passed to \<^verbatim>\<open>std::abs\<close> or converted to
  \<^verbatim>\<open>int\<close>, which is undefined for either infinity.
\<close>

datatype ieee = Finite real | PosInf | NegInf | NaN

text \<open>
  The rounding of the exact result of an operation to the format of its result: the
  nearest value of the format, or an infinity when the result is too large.  The
  rounding \<open>exact\<close> stands for it on operands whose exact result belongs to the
  format, as in the examples of this theory.
\<close>

type_synonym rounding = "real \<Rightarrow> ieee"

definition exact :: rounding where
  "exact x = Finite x"

fun fneg :: "ieee \<Rightarrow> ieee" where
  "fneg (Finite x) = Finite (- x)"
| "fneg PosInf = NegInf"
| "fneg NegInf = PosInf"
| "fneg NaN = NaN"

fun fabs :: "ieee \<Rightarrow> ieee" where
  "fabs (Finite x) = Finite \<bar>x\<bar>"
| "fabs PosInf = PosInf"
| "fabs NegInf = PosInf"
| "fabs NaN = NaN"

fun fadd :: "rounding \<Rightarrow> ieee \<Rightarrow> ieee \<Rightarrow> ieee" where
  "fadd rnd (Finite x) (Finite y) = rnd (x + y)"
| "fadd rnd NaN b = NaN"
| "fadd rnd a NaN = NaN"
| "fadd rnd PosInf NegInf = NaN"
| "fadd rnd NegInf PosInf = NaN"
| "fadd rnd PosInf b = PosInf"
| "fadd rnd NegInf b = NegInf"
| "fadd rnd a PosInf = PosInf"
| "fadd rnd a NegInf = NegInf"

definition fsub :: "rounding \<Rightarrow> ieee \<Rightarrow> ieee \<Rightarrow> ieee" where
  "fsub rnd a b = fadd rnd a (fneg b)"

fun fmul :: "rounding \<Rightarrow> ieee \<Rightarrow> ieee \<Rightarrow> ieee" where
  "fmul rnd (Finite x) (Finite y) = rnd (x * y)"
| "fmul rnd NaN b = NaN"
| "fmul rnd a NaN = NaN"
| "fmul rnd (Finite x) b = (if x = 0 then NaN else if 0 < x then b else fneg b)"
| "fmul rnd a (Finite y) = (if y = 0 then NaN else if 0 < y then a else fneg a)"
| "fmul rnd PosInf b = b"
| "fmul rnd NegInf b = fneg b"

fun fdiv :: "rounding \<Rightarrow> ieee \<Rightarrow> ieee \<Rightarrow> ieee" where
  "fdiv rnd (Finite x) (Finite y) =
     (if y = 0 then (if x = 0 then NaN else if 0 < x then PosInf else NegInf)
      else rnd (x / y))"
| "fdiv rnd NaN b = NaN"
| "fdiv rnd a NaN = NaN"
| "fdiv rnd (Finite x) b = Finite 0"
| "fdiv rnd a (Finite y) = (if 0 \<le> y then a else fneg a)"
| "fdiv rnd a b = NaN"

text \<open>
  \<^verbatim>\<open>std::round\<close> and \<^verbatim>\<open>static_cast<int>\<close> on such a value: the conversion
  drops the fraction and is undefined behaviour (an error here) for a value outside
  the range of \<^verbatim>\<open>int\<close>, an infinity or a NaN.
\<close>

fun fround :: "ieee \<Rightarrow> ieee" where
  "fround (Finite x) = Finite (of_int (std_round x))"
| "fround a = a"

fun to_int :: "ieee \<Rightarrow> error + int" where
  "to_int (Finite x) = cast_int (if 0 \<le> x then \<lfloor>x\<rfloor> else \<lceil>x\<rceil>)"
| "to_int a = Inl FloatToIntOverflow"

text \<open>
  The comparisons \<^verbatim>\<open>==\<close> and \<^verbatim>\<open>!=\<close>: a NaN is equal to nothing, not even
  to itself.
\<close>

definition feq :: "ieee \<Rightarrow> ieee \<Rightarrow> bool" where
  "feq a b = (a \<noteq> NaN \<and> b \<noteq> NaN \<and> a = b)"

definition fne :: "ieee \<Rightarrow> ieee \<Rightarrow> bool" where
  "fne a b = (\<not> feq a b)"

section \<open>Mesh text parser: \<^verbatim>\<open>FastFGDParser\<close>\<close>

text \<open>
  The document is a list of bytes, and a pointer into it is the rest of the document
  from that position.  \<^verbatim>\<open>std::from_chars\<close> for \<^verbatim>\<open>double\<close> is a parameter of
  the parser: given the characters up to the end of the field it answers the value
  and the number of characters read, or nothing on failure (the target is then left
  as it was).
\<close>

type_synonym from_chars = "string \<Rightarrow> (double \<times> nat) option"

record ParsedData =
  lower_corner_x :: double
  lower_corner_y :: double
  upper_corner_x :: double
  upper_corner_y :: double
  grid_low_x :: int
  grid_low_y :: int
  grid_high_x :: int
  grid_high_y :: int
  start_x :: double
  start_y :: double
  mesh_code :: string
  dem_type :: string
  elevation_list :: "double list"
  has_lower_corner :: bool
  has_upper_corner :: bool
  has_grid_envelope :: bool
  has_start_point :: bool
  has_mesh_code :: bool
  has_dem_type :: bool
  has_tuple_list :: bool

text \<open>The default member initialisers of \<^verbatim>\<open>ParsedData\<close>.\<close>

definition initial_data :: ParsedData where
  "initial_data = \<lparr>lower_corner_x = 0, lower_corner_y = 0, upper_corner_x = 0,
     upper_corner_y = 0, grid_low_x = 0, grid_low_y = 0, grid_high_x = 0, grid_high_y = 0,
     start_x = 0, start_y = 0, mesh_code = [], dem_type = [], elevation_list = [],
     has_lower_corner = False, has_upper_corner = False, has_grid_envelope = False,
     has_start_point = False, has_mesh_code = False, has_dem_type = False,
     has_tuple_list = False\<rparr>"

definition starts_with :: "string \<Rightarrow> string \<Rightarrow> bool" where
  "starts_with p pattern = (length p \<ge> length pattern \<and> take (length pattern) p = pattern)"

text \<open>Space, line feed, carriage return and tab: the white space the parser skips.\<close>

definition is_blank :: "char \<Rightarrow> bool" where
  "is_blank c = (c = CHR '' '' \<or> c = CHR 0x0A \<or> c = CHR 0x0D \<or> c = CHR 0x09)"

definition not_lt :: "char \<Rightarrow> bool" where
  "not_lt c = (c \<noteq> CHR ''<'')"

text \<open>
  \<^verbatim>\<open>parse_double_pair\<close>: the pointer returned is always the end of the content
  (the next \<open><\<close> or the end of the document); a value that does not parse keeps
  what it held.  The result is the pointer and the two values.
\<close>

definition parse_double_pair ::
  "from_chars \<Rightarrow> string \<Rightarrow> double \<Rightarrow> double \<Rightarrow> string \<times> double \<times> double" where
  "parse_double_pair fc p val1 val2 =
     (let p1 = dropWhile is_blank p;
          content = takeWhile not_lt p1;
          content_end = dropWhile not_lt p1
      in case fc content of
           None \<Rightarrow> (content_end, val1, val2)
         | Some (v1, n1) \<Rightarrow>
             (case fc (dropWhile is_blank (drop n1 content)) of
                None \<Rightarrow> (content_end, v1, val2)
              | Some (v2, n2) \<Rightarrow> (content_end, v1, v2)))"

text \<open>
  \<^verbatim>\<open>std::from_chars\<close> for \<^verbatim>\<open>int\<close>: an optional minus sign and decimal digits,
  no white space and no plus sign; a value outside \<^verbatim>\<open>int\<close> is a failure.
\<close>

definition digit_char :: "char \<Rightarrow> bool" where
  "digit_char c = (48 \<le> (of_char c :: nat) \<and> (of_char c :: nat) \<le> 57)"

definition decimal_value :: "string \<Rightarrow> nat" where
  "decimal_value ds = foldl (\<lambda>a c. 10 * a + (of_char c - 48)) 0 ds"

definition from_chars_int :: "string \<Rightarrow> (int \<times> nat) option" where
  "from_chars_int s =
     (let negative = (s \<noteq> [] \<and> hd s = CHR ''-'');
          u = (if negative then tl s else s);
          ds = takeWhile digit_char u;
          v = (if negative then - int (decimal_value ds) else int (decimal_value ds))
      in if ds = [] then None
         else if - (2 ^ 31) \<le> v \<and> v < 2 ^ 31
              then Some (v, length ds + (if negative then 1 else 0))
         else None)"

definition parse_int_pair :: "string \<Rightarrow> int \<Rightarrow> int \<Rightarrow> string \<times> int \<times> int" where
  "parse_int_pair p val1 val2 =
     (let p1 = dropWhile is_blank p;
          content = takeWhile not_lt p1;
          content_end = dropWhile not_lt p1
      in case from_chars_int content of
           None \<Rightarrow> (content_end, val1, val2)
         | Some (v1, n1) \<Rightarrow>
             (case from_chars_int (dropWhile is_blank (drop n1 content)) of
                None \<Rightarrow> (content_end, v1, val2)
              | Some (v2, n2) \<Rightarrow> (content_end, v1, v2)))"

text \<open>
  \<^verbatim>\<open>parse_simple_text\<close>: the content up to the next \<open><\<close> without the white
  space around it; the pointer returned is the end of the trimmed content.
\<close>

definition parse_simple_text :: "string \<Rightarrow> string \<times> string" where
  "parse_simple_text p =
     (let p1 = dropWhile is_blank p;
          content = takeWhile not_lt p1;
          trimmed = rev (dropWhile is_blank (rev content))
      in (drop (length trimmed) p1, trimmed))"

text \<open>The two survey types of sea points, as UTF-8 bytes.\<close>

definition sea_surface :: string where
  "sea_surface = [CHR 0xE6, CHR 0xB5, CHR 0xB7, CHR 0xE6, CHR 0xB0, CHR 0xB4,
                  CHR 0xE9, CHR 0x9D, CHR 0xA2]"

definition sea_floor :: string where
  "sea_floor = [CHR 0xE6, CHR 0xB5, CHR 0xB7, CHR 0xE6, CHR 0xB0, CHR 0xB4,
                CHR 0xE5, CHR 0xBA, CHR 0x95, CHR 0xE9, CHR 0x9D, CHR 0xA2]"

definition is_sea_type :: "string \<Rightarrow> bool" where
  "is_sea_type t = (t = sea_surface \<or> t = sea_floor)"

text \<open>
  The value one record of the tuple list appends to the elevation list, from its
  survey type and the characters of its value (the \<^verbatim>\<open>if (parse_ok)\<close> block, which
  both tuple-list parsers share word for word).
\<close>

definition record_value :: "from_chars \<Rightarrow> bool \<Rightarrow> string \<Rightarrow> string \<Rightarrow> double" where
  "record_value fc sea_at_zero type_text value_text =
     (case fc value_text of
        Some (v, n) \<Rightarrow>
          if sea_at_zero \<and> v \<le> - 9999 \<and> is_sea_type type_text then 0 else v
      | None \<Rightarrow> - 9999)"

definition value_char :: "char \<Rightarrow> bool" where
  "value_char c = (c \<noteq> CHR 0x0A \<and> c \<noteq> CHR ''<'')"

definition not_comma :: "char \<Rightarrow> bool" where
  "not_comma c = (c \<noteq> CHR '','')"

text \<open>
  The loop of \<^verbatim>\<open>FastFGDParser::parse_tuple_list\<close>: it ends at a \<open><\<close>, at the
  end of the document, or when no comma is left; otherwise one record is read and the
  pointer moves behind its value and one line feed.
\<close>

function tuple_loop :: "from_chars \<Rightarrow> bool \<Rightarrow> string \<Rightarrow> double list \<Rightarrow> string \<times> double list" where
  "tuple_loop fc sea_at_zero p elevation =
     (if p = [] \<or> hd p = CHR ''<'' \<or> CHR '','' \<notin> set p then (p, elevation)
      else
        (let type_text = takeWhile not_comma p;
             value_start = tl (dropWhile not_comma p);
             value_text = takeWhile value_char value_start;
             value_end = dropWhile value_char value_start;
             next_line = (if value_end \<noteq> [] \<and> hd value_end = CHR 0x0A
                          then tl value_end else value_end)
         in tuple_loop fc sea_at_zero next_line
              (elevation @ [record_value fc sea_at_zero type_text value_text])))"
  by pat_completeness auto

lemma tuple_loop_step_shorter:
  assumes "CHR '','' \<in> set p"
  shows "length (dropWhile value_char (tl (dropWhile not_comma p))) < length p"
proof -
  have "dropWhile not_comma p \<noteq> []"
    using assms by (auto simp: dropWhile_eq_Nil_conv not_comma_def)
  then have "length (tl (dropWhile not_comma p)) < length (dropWhile not_comma p)"
    by (cases "dropWhile not_comma p") auto
  moreover have "length (dropWhile not_comma p) \<le> length p"
    by (rule length_dropWhile_le)
  moreover have "length (dropWhile value_char (tl (dropWhile not_comma p)))
                   \<le> length (tl (dropWhile not_comma p))"
    by (rule length_dropWhile_le)
  ultimately show ?thesis by linarith
qed

termination tuple_loop
proof (relation "measure (\<lambda>(fc, sea_at_zero, p, elevation). length p)")
  show "wf (measure (\<lambda>(fc, sea_at_zero, p, elevation). length p))" by simp
next
  fix fc :: from_chars and sea_at_zero :: bool and p :: string and elevation :: "double list"
    and type_text value_start value_text value_end next_line
  assume a: "\<not> (p = [] \<or> hd p = CHR ''<'' \<or> CHR '','' \<notin> set p)"
    and vs: "value_start = tl (dropWhile not_comma p)"
    and ve: "value_end = dropWhile value_char value_start"
    and nl: "next_line = (if value_end \<noteq> [] \<and> hd value_end = CHR 0x0A
                          then tl value_end else value_end)"
  have "length next_line \<le> length value_end" unfolding nl by simp
  moreover have "length value_end < length p"
    unfolding ve vs using a by (intro tuple_loop_step_shorter) simp
  ultimately show "((fc, sea_at_zero, next_line,
                     elevation @ [record_value fc sea_at_zero type_text value_text]),
                    (fc, sea_at_zero, p, elevation))
                   \<in> measure (\<lambda>(fc, sea_at_zero, p, elevation). length p)"
    by simp
qed

declare tuple_loop.simps [simp del]

definition parse_tuple_list ::
  "from_chars \<Rightarrow> bool \<Rightarrow> string \<Rightarrow> double list \<Rightarrow> string \<times> double list" where
  "parse_tuple_list fc sea_at_zero p elevation =
     tuple_loop fc sea_at_zero (dropWhile is_blank p) elevation"

text \<open>
  Every field parser returns a pointer at or behind the one it was given: the rest it
  returns is never longer.
\<close>

lemma parse_double_pair_rest: "length (fst (parse_double_pair fc p a b)) \<le> length p"
proof -
  have "length (dropWhile not_lt (dropWhile is_blank p)) \<le> length p"
    by (meson length_dropWhile_le order_trans)
  then show ?thesis
    by (auto simp: parse_double_pair_def Let_def split: option.splits)
qed

lemma parse_int_pair_rest: "length (fst (parse_int_pair p a b)) \<le> length p"
proof -
  have "length (dropWhile not_lt (dropWhile is_blank p)) \<le> length p"
    by (meson length_dropWhile_le order_trans)
  then show ?thesis
    by (auto simp: parse_int_pair_def Let_def split: option.splits)
qed

lemma parse_simple_text_rest: "length (fst (parse_simple_text p)) \<le> length p"
proof -
  have "length (dropWhile is_blank p) \<le> length p" by (rule length_dropWhile_le)
  then show ?thesis by (simp add: parse_simple_text_def Let_def)
qed

lemma tuple_loop_rest: "length (fst (tuple_loop fc sea_at_zero p elevation)) \<le> length p"
proof (induction fc sea_at_zero p elevation rule: tuple_loop.induct)
  case (1 fc sea_at_zero p elevation)
  show ?case
  proof (cases "p = [] \<or> hd p = CHR ''<'' \<or> CHR '','' \<notin> set p")
    case True
    then show ?thesis by (subst tuple_loop.simps) simp
  next
    case False
    let ?value_end = "dropWhile value_char (tl (dropWhile not_comma p))"
    let ?next = "if ?value_end \<noteq> [] \<and> hd ?value_end = CHR 0x0A then tl ?value_end
                 else ?value_end"
    have "length (fst (tuple_loop fc sea_at_zero ?next
             (elevation @ [record_value fc sea_at_zero (takeWhile not_comma p)
                 (takeWhile value_char (tl (dropWhile not_comma p)))]))) \<le> length ?next"
      by (rule "1.IH"[OF False refl refl refl refl refl])
    moreover have "length ?next \<le> length ?value_end" by simp
    moreover have "length ?value_end < length p"
      using False by (intro tuple_loop_step_shorter) simp
    ultimately show ?thesis using False by (subst tuple_loop.simps) (simp add: Let_def)
  qed
qed

lemma parse_tuple_list_rest:
  "length (fst (parse_tuple_list fc sea_at_zero p elevation)) \<le> length p"
  unfolding parse_tuple_list_def
  by (meson tuple_loop_rest length_dropWhile_le order_trans)

text \<open>
  The loop of \<^verbatim>\<open>FastFGDParser::parse_all\<close>: the next \<open><\<close> is searched, the tag
  behind it is compared with the eight known tags in the order of the source, and the
  field parser of the first match moves the pointer and updates the data.  After a
  tuple list the loop ends early when the four fields named in the source have been
  seen.
\<close>

function parse_loop :: "from_chars \<Rightarrow> bool \<Rightarrow> string \<Rightarrow> ParsedData \<Rightarrow> ParsedData" where
  "parse_loop fc sea_at_zero xs d =
     (case dropWhile not_lt xs of
        [] \<Rightarrow> d
      | lt # p \<Rightarrow>
          if starts_with p ''gml:lowerCorner>'' then
            (let r = parse_double_pair fc (drop 16 p) (lower_corner_x d) (lower_corner_y d)
             in parse_loop fc sea_at_zero (fst r)
                  (d\<lparr>lower_corner_x := fst (snd r), lower_corner_y := snd (snd r),
                     has_lower_corner := True\<rparr>))
          else if starts_with p ''gml:upperCorner>'' then
            (let r = parse_double_pair fc (drop 16 p) (upper_corner_x d) (upper_corner_y d)
             in parse_loop fc sea_at_zero (fst r)
                  (d\<lparr>upper_corner_x := fst (snd r), upper_corner_y := snd (snd r),
                     has_upper_corner := True\<rparr>))
          else if starts_with p ''gml:low>'' then
            (let r = parse_int_pair (drop 8 p) (grid_low_x d) (grid_low_y d)
             in parse_loop fc sea_at_zero (fst r)
                  (d\<lparr>grid_low_x := fst (snd r), grid_low_y := snd (snd r)\<rparr>))
          else if starts_with p ''gml:high>'' then
            (let r = parse_int_pair (drop 9 p) (grid_high_x d) (grid_high_y d)
             in parse_loop fc sea_at_zero (fst r)
                  (d\<lparr>grid_high_x := fst (snd r), grid_high_y := snd (snd r),
                     has_grid_envelope := True\<rparr>))
          else if starts_with p ''gml:startPoint>'' then
            (let r = parse_double_pair fc (drop 15 p) (start_x d) (start_y d)
             in parse_loop fc sea_at_zero (fst r)
                  (d\<lparr>start_x := fst (snd r), start_y := snd (snd r),
                     has_start_point := True\<rparr>))
          else if starts_with p ''mesh>'' then
            (let r = parse_simple_text (drop 5 p)
             in parse_loop fc sea_at_zero (fst r)
                  (d\<lparr>mesh_code := snd r, has_mesh_code := True\<rparr>))
          else if starts_with p ''type>'' then
            (let r = parse_simple_text (drop 5 p)
             in parse_loop fc sea_at_zero (fst r)
                  (d\<lparr>dem_type := snd r, has_dem_type := True\<rparr>))
          else if starts_with p ''gml:tupleList>'' then
            (let r = parse_tuple_list fc sea_at_zero (drop 14 p) (elevation_list d);
                 d1 = d\<lparr>elevation_list := snd r, has_tuple_list := True\<rparr>
             in if has_lower_corner d1 \<and> has_upper_corner d1 \<and> has_grid_envelope d1
                   \<and> has_start_point d1
                then d1
                else parse_loop fc sea_at_zero (fst r) d1)
          else parse_loop fc sea_at_zero p d)"
  by pat_completeness auto

lemma behind_lt_shorter:
  assumes "dropWhile not_lt xs = lt # p"
  shows "length (drop k p) < length xs"
proof -
  have "length (lt # p) \<le> length xs"
    using length_dropWhile_le[of not_lt xs] unfolding assms .
  then show ?thesis by simp
qed

termination parse_loop
proof (relation "measure (\<lambda>(fc, sea_at_zero, xs, d). length xs)", goal_cases)
  case 1
  show ?case by simp
next
  case (2 fc sea_at_zero xs d lt p r)
  then show ?case
    using parse_double_pair_rest[of fc "drop 16 p" "lower_corner_x d" "lower_corner_y d"]
      behind_lt_shorter[of xs lt p 16] by simp
next
  case (3 fc sea_at_zero xs d lt p r)
  then show ?case
    using parse_double_pair_rest[of fc "drop 16 p" "upper_corner_x d" "upper_corner_y d"]
      behind_lt_shorter[of xs lt p 16] by simp
next
  case (4 fc sea_at_zero xs d lt p r)
  then show ?case
    using parse_int_pair_rest[of "drop 8 p" "grid_low_x d" "grid_low_y d"]
      behind_lt_shorter[of xs lt p 8] by simp
next
  case (5 fc sea_at_zero xs d lt p r)
  then show ?case
    using parse_int_pair_rest[of "drop 9 p" "grid_high_x d" "grid_high_y d"]
      behind_lt_shorter[of xs lt p 9] by simp
next
  case (6 fc sea_at_zero xs d lt p r)
  then show ?case
    using parse_double_pair_rest[of fc "drop 15 p" "start_x d" "start_y d"]
      behind_lt_shorter[of xs lt p 15] by simp
next
  case (7 fc sea_at_zero xs d lt p r)
  then show ?case
    using parse_simple_text_rest[of "drop 5 p"] behind_lt_shorter[of xs lt p 5] by simp
next
  case (8 fc sea_at_zero xs d lt p r)
  then show ?case
    using parse_simple_text_rest[of "drop 5 p"] behind_lt_shorter[of xs lt p 5] by simp
next
  case (9 fc sea_at_zero xs d lt p r d1)
  then show ?case
    using parse_tuple_list_rest[of fc sea_at_zero "drop 14 p" "elevation_list d"]
      behind_lt_shorter[of xs lt p 14] by simp
next
  case (10 fc sea_at_zero xs d lt p)
  then show ?case
    using behind_lt_shorter[of xs lt p 0] by simp
qed

declare parse_loop.simps [simp del]

text \<open>
  \<^verbatim>\<open>FastFGDParser::parse_all\<close> returns a \<^verbatim>\<open>std::optional<ParsedData>\<close>.
  \<^verbatim>\<open>XmlParser::Impl::Impl\<close> calls it with the flag \<^verbatim>\<open>true\<close> and throws when
  the result is empty.
\<close>

definition parse_all :: "from_chars \<Rightarrow> string \<Rightarrow> bool \<Rightarrow> ParsedData option" where
  "parse_all fc xml sea_at_zero = Some (parse_loop fc sea_at_zero xml initial_data)"

definition XmlParser :: "from_chars \<Rightarrow> string \<Rightarrow> error + ParsedData" where
  "XmlParser fc xml_content =
     (case parse_all fc xml_content True of
        Some parsed \<Rightarrow> Inr parsed
      | None \<Rightarrow> Inl RuntimeError)"

text \<open>
  The loop of \<^verbatim>\<open>FastTupleListParser::parse\<close>, the second tuple-list parser: it
  ends when no comma is left, and a value ends at a line feed only.
\<close>

definition not_newline :: "char \<Rightarrow> bool" where
  "not_newline c = (c \<noteq> CHR 0x0A)"

function tuple_list_loop :: "from_chars \<Rightarrow> bool \<Rightarrow> string \<Rightarrow> double list \<Rightarrow> double list" where
  "tuple_list_loop fc sea_at_zero p elevation =
     (if CHR '','' \<notin> set p then elevation
      else
        (let type_text = takeWhile not_comma p;
             value_start = tl (dropWhile not_comma p);
             value_text = takeWhile not_newline value_start;
             value_end = dropWhile not_newline value_start;
             next_line = (if value_end \<noteq> [] \<and> hd value_end = CHR 0x0A
                          then tl value_end else value_end)
         in tuple_list_loop fc sea_at_zero next_line
              (elevation @ [record_value fc sea_at_zero type_text value_text])))"
  by pat_completeness auto

lemma tuple_list_loop_step_shorter:
  assumes "CHR '','' \<in> set p"
  shows "length (dropWhile not_newline (tl (dropWhile not_comma p))) < length p"
proof -
  have "dropWhile not_comma p \<noteq> []"
    using assms by (auto simp: dropWhile_eq_Nil_conv not_comma_def)
  then have "length (tl (dropWhile not_comma p)) < length (dropWhile not_comma p)"
    by (cases "dropWhile not_comma p") auto
  moreover have "length (dropWhile not_comma p) \<le> length p"
    by (rule length_dropWhile_le)
  moreover have "length (dropWhile not_newline (tl (dropWhile not_comma p)))
                   \<le> length (tl (dropWhile not_comma p))"
    by (rule length_dropWhile_le)
  ultimately show ?thesis by linarith
qed

termination tuple_list_loop
proof (relation "measure (\<lambda>(fc, sea_at_zero, p, elevation). length p)", goal_cases)
  case 1
  show ?case by simp
next
  case (2 fc sea_at_zero p elevation type_text value_start value_text value_end next_line)
  have "length next_line \<le> length value_end" unfolding 2 by simp
  moreover have "length value_end < length p"
    unfolding 2 using 2(1) by (intro tuple_list_loop_step_shorter) simp
  ultimately show ?case by simp
qed

declare tuple_list_loop.simps [simp del]

definition FastTupleListParser_parse :: "from_chars \<Rightarrow> string \<Rightarrow> bool \<Rightarrow> double list" where
  "FastTupleListParser_parse fc text sea_at_zero =
     tuple_list_loop fc sea_at_zero
       (if text \<noteq> [] \<and> hd text = CHR 0x0A then tl text else text) []"

text \<open>
  A stand-in for \<^verbatim>\<open>std::from_chars\<close> on \<^verbatim>\<open>double\<close>, used for the closed
  examples only: an optional minus sign, decimal digits, an optional point and more
  digits, at least one digit in all.  Exponents and the words \<open>inf\<close> and \<open>nan\<close> are
  not covered.
\<close>

definition from_chars_double :: from_chars where
  "from_chars_double s =
     (let negative = (s \<noteq> [] \<and> hd s = CHR ''-'');
          u = (if negative then tl s else s);
          int_digits = takeWhile digit_char u;
          u1 = dropWhile digit_char u;
          has_point = (u1 \<noteq> [] \<and> hd u1 = CHR ''.'');
          frac_digits = (if has_point then takeWhile digit_char (tl u1) else []);
          mantissa = real (decimal_value (int_digits @ frac_digits)) / 10 ^ length frac_digits;
          n = (if negative then 1 else 0) + length int_digits
              + (if has_point then 1 + length frac_digits else 0)
      in if int_digits = [] \<and> frac_digits = [] then None
         else Some (if negative then - mantissa else mantissa, n))"

text \<open>
  One record of a tuple list as text: the survey type, a comma, the characters of the
  value and a line feed.
\<close>

definition record_line :: "string \<times> string \<Rightarrow> string" where
  "record_line r = fst r @ CHR '','' # snd r @ [CHR 0x0A]"

text \<open>Three records: a sea point, a land point with the same value, an unparsable value.\<close>

definition three_records :: "(string \<times> string) list" where
  "three_records = [(sea_surface, ''-9999.''), (''x'', ''-9999.''), (''x'', ''abc'')]"

section \<open>Mesh grid builder: \<^verbatim>\<open>Dem::get_np_array\<close>\<close>

text \<open>
  The getters of \<^verbatim>\<open>XmlParser\<close>: a value when the presence flag is set.  The tuple
  list is returned as a vector holding the elevation list as its only row.
\<close>

definition get_tuple_list :: "ParsedData \<Rightarrow> double list list option" where
  "get_tuple_list d = (if has_tuple_list d then Some [elevation_list d] else None)"

definition get_grid_envelope :: "ParsedData \<Rightarrow> (int \<times> int \<times> int \<times> int) option" where
  "get_grid_envelope d =
     (if has_grid_envelope d
      then Some (grid_low_x d, grid_low_y d, grid_high_x d, grid_high_y d)
      else None)"

definition get_start_point :: "ParsedData \<Rightarrow> (double \<times> double) option" where
  "get_start_point d = (if has_start_point d then Some (start_x d, start_y d) else None)"

text \<open>
  The conversion of an \<^verbatim>\<open>int\<close> to \<^verbatim>\<open>size_t\<close>, modulo \<open>2 ^ 64\<close>, and of a
  \<^verbatim>\<open>double\<close> to \<^verbatim>\<open>int\<close>, which drops the fraction and is undefined outside
  the range of \<^verbatim>\<open>int\<close>.
\<close>

definition size_t_of :: "int \<Rightarrow> nat" where
  "size_t_of i = nat (i mod 2 ^ 64)"

definition double_to_int :: "double \<Rightarrow> error + int" where
  "double_to_int r = cast_int (if 0 \<le> r then \<lfloor>r\<rfloor> else \<lceil>r\<rceil>)"

text \<open>
  \<^verbatim>\<open>FlatArray2D<double>\<close>: a vector of \<open>height * width\<close> elements (the product
  taken in \<^verbatim>\<open>size_t\<close>) and the two dimensions; the members \<^verbatim>\<open>data_\<close>,
  \<^verbatim>\<open>width_\<close> and \<^verbatim>\<open>height_\<close> of the source are the fields \<open>flat_data\<close>,
  \<open>flat_width\<close> and \<open>flat_height\<close>.  A vector longer than
  \<^verbatim>\<open>max_size()\<close> cannot be constructed (\<^verbatim>\<open>std::length_error\<close>); memory is
  otherwise taken to suffice.
\<close>

record FlatArray2D =
  flat_data :: "double list"
  flat_width :: nat
  flat_height :: nat

definition max_size_double :: nat where
  "max_size_double = 2 ^ 60 - 1"

definition max_size_rows :: nat where
  "max_size_rows = (2 ^ 63 - 1) div 24"

definition new_FlatArray2D :: "int \<Rightarrow> int \<Rightarrow> double \<Rightarrow> error + FlatArray2D" where
  "new_FlatArray2D h w init_value =
     (let n = (size_t_of h * size_t_of w) mod 2 ^ 64
      in if n > max_size_double then Inl LengthError
         else Inr \<lparr>flat_data = replicate n init_value, flat_width = size_t_of w,
                   flat_height = size_t_of h\<rparr>)"

text \<open>
  \<^verbatim>\<open>array(row, col) = v\<close>: the arguments are converted to \<^verbatim>\<open>size_t\<close>, the
  index \<open>row * width + col\<close> is computed in \<^verbatim>\<open>size_t\<close>, and an index outside the
  vector is an error.
\<close>

definition put :: "FlatArray2D \<Rightarrow> int \<Rightarrow> int \<Rightarrow> double \<Rightarrow> error + FlatArray2D" where
  "put a row col v =
     (let idx = (size_t_of row * flat_width a + size_t_of col) mod 2 ^ 64
      in if idx < length (flat_data a) then Inr (a\<lparr>flat_data := (flat_data a)[idx := v]\<rparr>)
         else Inl OutOfBounds)"

text \<open>
  \<^verbatim>\<open>to_2d_vector\<close>: \<open>height\<close> rows of \<open>width\<close> elements each, read from the
  flat vector.
\<close>

definition to_2d_vector :: "FlatArray2D \<Rightarrow> error + double list list" where
  "to_2d_vector a =
     (if flat_height a > max_size_rows then Inl LengthError
      else if flat_height a * flat_width a \<le> length (flat_data a)
      then Inr (map (\<lambda>y. take (flat_width a) (drop (y * flat_width a) (flat_data a))) [0 ..< flat_height a])
      else Inl OutOfBounds)"

text \<open>
  The inner loop
  \<^verbatim>\<open>for (int x = current_start_x; x < x_length && index < elevation.size(); ++x)\<close>
  and the outer loop
  \<^verbatim>\<open>for (int y = start_y; y < y_length && index < elevation.size(); ++y)\<close>, which
  continues every further row at column 0.
\<close>

function fill_row ::
  "double list \<Rightarrow> int \<Rightarrow> int \<Rightarrow> int \<Rightarrow> nat \<Rightarrow> FlatArray2D \<Rightarrow> error + (nat \<times> FlatArray2D)" where
  "fill_row elevation x_len y x index array =
     (if x < x_len \<and> index < length elevation then
        (case put array y x (elevation ! index) of
           Inl e \<Rightarrow> Inl e
         | Inr a \<Rightarrow> fill_row elevation x_len y (x + 1) (index + 1) a)
      else Inr (index, array))"
  by pat_completeness auto

termination fill_row
  by (relation "measure (\<lambda>(elevation, x_len, y, x, index, array). nat (x_len - x))") auto

declare fill_row.simps [simp del]

function fill_rows ::
  "double list \<Rightarrow> int \<Rightarrow> int \<Rightarrow> int \<Rightarrow> int \<Rightarrow> nat \<Rightarrow> FlatArray2D \<Rightarrow> error + FlatArray2D" where
  "fill_rows elevation x_len y_len y current_start_x index array =
     (if y < y_len \<and> index < length elevation then
        (case fill_row elevation x_len y current_start_x index array of
           Inl e \<Rightarrow> Inl e
         | Inr (index', a) \<Rightarrow> fill_rows elevation x_len y_len (y + 1) 0 index' a)
      else Inr array)"
  by pat_completeness auto

termination fill_rows
  by (relation "measure (\<lambda>(elevation, x_len, y_len, y, current_start_x, index, array).
                   nat (y_len - y))") auto

declare fill_rows.simps [simp del]

text \<open>
  The body of \<^verbatim>\<open>get_np_array\<close> on the parsed data: the empty array when the tuple
  list, the grid envelope or the start point is missing, otherwise the filled grid.
  The subtraction of the envelope bounds and the increment are undefined where
  they leave the range of \<^verbatim>\<open>int\<close>.
\<close>

definition build_grid :: "ParsedData \<Rightarrow> error + double list list" where
  "build_grid d =
     (case get_tuple_list d of
        None \<Rightarrow> Inr []
      | Some tuple_result \<Rightarrow>
          if tuple_result = [] then Inr []
          else
            (let elevation = tuple_result ! 0
             in case get_grid_envelope d of
                  None \<Rightarrow> Inr []
                | Some (low_x, low_y, high_x, high_y) \<Rightarrow>
                    (case get_start_point d of
                       None \<Rightarrow> Inr []
                     | Some (start_point_x, start_point_y) \<Rightarrow>
                         and_then (and_then (cast_int (high_x - low_x)) (\<lambda>dx. cast_int (dx + 1)))
                           (\<lambda>x_len.
                         and_then (and_then (cast_int (high_y - low_y)) (\<lambda>dy. cast_int (dy + 1)))
                           (\<lambda>y_len.
                         and_then (double_to_int start_point_x)
                           (\<lambda>start_col.
                         and_then (double_to_int start_point_y)
                           (\<lambda>start_row.
                         and_then (new_FlatArray2D y_len x_len (- 9999))
                           (\<lambda>array.
                         and_then (fill_rows elevation x_len y_len start_row start_col 0 array)
                           to_2d_vector))))))))"

definition get_np_array :: "from_chars \<Rightarrow> string \<Rightarrow> error + double list list" where
  "get_np_array fc xml_content = and_then (XmlParser fc xml_content) build_grid"

text \<open>
  The grid the specification describes, for \<open>h\<close> rows of \<open>w\<close> columns: the cell at
  row-major position \<open>k = y * w + x\<close> holds sample \<open>k - off\<close> when \<open>off \<le> k\<close> and that
  sample exists, and the sentinel otherwise, where \<open>off\<close> is the position of the
  first sample.  \<open>filled_cells\<close> is the flat form after \<open>i\<close> samples.
\<close>

definition filled_cells :: "nat \<Rightarrow> nat \<Rightarrow> nat \<Rightarrow> double list \<Rightarrow> double list" where
  "filled_cells n off i elevation =
     map (\<lambda>k. if off \<le> k \<and> k < off + i then elevation ! (k - off) else - 9999) [0 ..< n]"

definition expected_grid :: "nat \<Rightarrow> nat \<Rightarrow> nat \<Rightarrow> double list \<Rightarrow> double list list" where
  "expected_grid h w off elevation =
     map (\<lambda>y. map (\<lambda>x. if off \<le> y * w + x \<and> y * w + x < off + length elevation
                        then elevation ! (y * w + x - off) else - 9999) [0 ..< w]) [0 ..< h]"

text \<open>
  Two parsed meshes of three columns and two rows: one whose start point is
  column 1 of row 0, with three samples, and one whose start point is column
  \<open>- 1\<close> of row 1, with five samples.
\<close>

definition small_mesh :: ParsedData where
  "small_mesh = initial_data
     \<lparr>grid_low_x := 0, grid_low_y := 0, grid_high_x := 2, grid_high_y := 1,
      start_x := 1, start_y := 0, elevation_list := [1, 2, 3],
      has_grid_envelope := True, has_start_point := True, has_tuple_list := True\<rparr>"

definition negative_start_mesh :: ParsedData where
  "negative_start_mesh = initial_data
     \<lparr>grid_low_x := 0, grid_low_y := 0, grid_high_x := 2, grid_high_y := 1,
      start_x := - 1, start_y := 1, elevation_list := [1, 2, 3, 4, 5],
      has_grid_envelope := True, has_start_point := True, has_tuple_list := True\<rparr>"

section \<open>Mosaic assembler: \<^verbatim>\<open>Converter::combine_meta_data_and_contents\<close>\<close>

record Metadata =
  mesh_code :: string
  file_name :: string
  dem_type :: string
  lower_corner_x :: double
  lower_corner_y :: double
  upper_corner_x :: double
  upper_corner_y :: double
  x_length :: int
  y_length :: int
  start_x :: double
  start_y :: double

record BoundsLatLng =
  min_lat :: double
  max_lat :: double
  min_lng :: double
  max_lng :: double

text \<open>
  The three adjustments of the copy range of one row (geotiff.cpp, the block headed
  by the comment on the safe copy range): a destination that starts left of the
  canvas, a destination that ends right of it, a source row that is too short.
  The result is \<open>(src_start, dst_start, copy_len)\<close>.  \<open>src_size\<close> is
  \<^verbatim>\<open>static_cast<int>(np_array[y].size())\<close>.
\<close>

definition clip_copy :: "int \<Rightarrow> int \<Rightarrow> int \<Rightarrow> int \<Rightarrow> int \<times> int \<times> int" where
  "clip_copy total_x column_start x_len src_size =
     (let src_start0 = 0;
          dst_start0 = column_start;
          copy_len0 = x_len;
          src_start = (if dst_start0 < 0 then int32 (- dst_start0) else src_start0);
          copy_len1 = (if dst_start0 < 0 then int32 (copy_len0 + dst_start0) else copy_len0);
          dst_start = (if dst_start0 < 0 then 0 else dst_start0);
          copy_len2 = (if int32 (dst_start + copy_len1) > total_x
                       then int32 (total_x - dst_start) else copy_len1);
          src_available = int32 (src_size - src_start);
          copy_len = (if copy_len2 > src_available then src_available else copy_len2)
      in (src_start, dst_start, copy_len))"

text \<open>
  \<^verbatim>\<open>std::memcpy(&dst[dst_start], &src[src_start], copy_len * sizeof(double))\<close>
  with the bounds of both vectors checked: a copy that leaves either vector, or a
  negative length (a huge \<^verbatim>\<open>size_t\<close>), is the error \<open>OutOfBounds\<close>
  (undefined behaviour in the source).
\<close>

definition memcpy_row :: "double list \<Rightarrow> int \<Rightarrow> double list \<Rightarrow> int \<Rightarrow> int \<Rightarrow> error + double list" where
  "memcpy_row dst dst_start src src_start copy_len =
     (if 0 \<le> copy_len \<and>
         0 \<le> dst_start \<and> dst_start + copy_len \<le> int (length dst) \<and>
         0 \<le> src_start \<and> src_start + copy_len \<le> int (length src)
      then Inr (take (nat dst_start) dst
                @ take (nat copy_len) (drop (nat src_start) src)
                @ drop (nat (dst_start + copy_len)) dst)
      else Inl OutOfBounds)"

text \<open>The body of the loop over the source rows \<open>y\<close> of one mesh.\<close>

definition place_row ::
  "int \<Rightarrow> int \<Rightarrow> int \<Rightarrow> int \<Rightarrow> int \<Rightarrow> double list list \<Rightarrow> nat \<Rightarrow> double list list
     \<Rightarrow> error + double list list" where
  "place_row total_x total_y row_start column_start x_len np_array y combined_array =
     (let target_row = int32 (row_start + int y) in
      if target_row < 0 \<or> target_row \<ge> total_y then Inr combined_array
      else
        (case clip_copy total_x column_start x_len (int32 (int (length (np_array ! y)))) of
           (src_start, dst_start, copy_len) \<Rightarrow>
             if copy_len > 0 then
               (if nat target_row < length combined_array then
                  (case memcpy_row (combined_array ! nat target_row) dst_start
                          (np_array ! y) src_start copy_len of
                     Inl e \<Rightarrow> Inl e
                   | Inr r \<Rightarrow> Inr (combined_array[nat target_row := r]))
                else Inl OutOfBounds)
             else Inr combined_array))"

text \<open>
  \<^verbatim>\<open>for (int y = 0; y < y_len && y < static_cast<int>(np_array.size()); ++y)\<close>:
  the rows \<open>0, 1, \<dots>\<close> below both bounds, in order.
\<close>

definition place_mesh ::
  "int \<Rightarrow> int \<Rightarrow> int \<Rightarrow> int \<Rightarrow> int \<Rightarrow> int \<Rightarrow> double list list \<Rightarrow> double list list
     \<Rightarrow> error + double list list" where
  "place_mesh total_x total_y row_start column_start x_len y_len np_array combined_array =
     for_each (place_row total_x total_y row_start column_start x_len np_array)
       [0 ..< nat (min y_len (int32 (int (length np_array))))] combined_array"

text \<open>
  \<^verbatim>\<open>Converter::calc_image_size\<close>.  The bounds are those of
  \<^verbatim>\<open>dem_->get_bounds_latlng()\<close>, passed as an argument; \<open>rnd\<close> rounds the
  result of each subtraction and division to a \<^verbatim>\<open>double\<close>.  A division by a
  zero grid dimension gives an infinite pixel size (or a NaN), not an exception.
\<close>

definition calc_image_size ::
  "rounding \<Rightarrow> Metadata list \<Rightarrow> BoundsLatLng \<Rightarrow> error + (int \<times> int)" where
  "calc_image_size rnd meta_data_list bounds =
     (case meta_data_list of
        [] \<Rightarrow> Inr (0, 0)
      | m0 # _ \<Rightarrow>
          (let pixel_size_x =
                 fdiv rnd (fsub rnd (Finite (upper_corner_y m0)) (Finite (lower_corner_y m0)))
                   (Finite (of_int (x_length m0)));
               pixel_size_y =
                 fdiv rnd (fsub rnd (Finite (lower_corner_x m0)) (Finite (upper_corner_x m0)))
                   (Finite (of_int (y_length m0)))
           in and_then
                (to_int (fround (fabs
                   (fdiv rnd (fsub rnd (Finite (max_lng bounds)) (Finite (min_lng bounds)))
                      pixel_size_x))))
                (\<lambda>x_length.
              and_then
                (to_int (fround (fabs
                   (fdiv rnd (fsub rnd (Finite (max_lat bounds)) (Finite (min_lat bounds)))
                      pixel_size_y))))
                (\<lambda>y_length. Inr (x_length, y_length)))))"

text \<open>
  \<^verbatim>\<open>std::vector<std::vector<double>> combined_array(total_y,
  std::vector<double>(total_x, -9999.0))\<close>: a negative count converts to a
  \<^verbatim>\<open>size_t\<close> beyond \<^verbatim>\<open>max_size()\<close> and the constructor throws.
\<close>

definition new_canvas :: "int \<Rightarrow> int \<Rightarrow> error + double list list" where
  "new_canvas total_x total_y =
     (if total_x < 0 \<or> total_y < 0 then Inl LengthError
      else Inr (replicate (nat total_y) (replicate (nat total_x) (- 9999))))"

text \<open>The body of the loop over the meshes: offsets of one mesh, then its rows.\<close>

definition place_one ::
  "rounding \<Rightarrow> int \<Rightarrow> int \<Rightarrow> ieee \<Rightarrow> ieee \<Rightarrow> BoundsLatLng \<Rightarrow> Metadata \<times> double list list
     \<Rightarrow> double list list \<Rightarrow> error + double list list" where
  "place_one rnd total_x total_y pixel_size_x pixel_size_y bounds mesh combined_array =
     (case mesh of (metadata, np_array) \<Rightarrow>
        (let lat_distance = fsub rnd (Finite (lower_corner_x metadata)) (Finite (min_lat bounds));
             lon_distance = fsub rnd (Finite (lower_corner_y metadata)) (Finite (min_lng bounds))
         in and_then (to_int (fround (fdiv rnd lon_distance pixel_size_x)))
              (\<lambda>x_coordinate.
            and_then (to_int (fround (fdiv rnd lat_distance (fneg pixel_size_y))))
              (\<lambda>y_coordinate.
                 (let x_len = x_length metadata;
                      y_len = y_length metadata;
                      row_start = int32 (total_y - int32 (y_coordinate + y_len));
                      column_start = x_coordinate
                  in place_mesh total_x total_y row_start column_start x_len y_len
                       np_array combined_array)))))"

text \<open>
  \<^verbatim>\<open>Converter::combine_meta_data_and_contents\<close>.  The loop
  \<^verbatim>\<open>for (i = 0; i < meta_data_list.size() && i < np_array_list.size(); ++i)\<close>
  runs over the pairs of \<open>zip\<close>.  Reading \<^verbatim>\<open>meta_data_list[0]\<close> of an
  empty span is outside the buffer.
\<close>

definition combine_meta_data_and_contents ::
  "rounding \<Rightarrow> Metadata list \<Rightarrow> double list list list \<Rightarrow> BoundsLatLng
     \<Rightarrow> error + (double list list \<times> int \<times> int)" where
  "combine_meta_data_and_contents rnd meta_data_list np_array_list bounds =
     and_then (calc_image_size rnd meta_data_list bounds)
       (\<lambda>(total_x, total_y).
     and_then (new_canvas total_x total_y)
       (\<lambda>combined_array.
          (case meta_data_list of
             [] \<Rightarrow> Inl OutOfBounds
           | m0 # _ \<Rightarrow>
               (let pixel_size_x =
                      fdiv rnd (fsub rnd (Finite (upper_corner_y m0)) (Finite (lower_corner_y m0)))
                        (Finite (of_int (x_length m0)));
                    pixel_size_y =
                      fdiv rnd (fsub rnd (Finite (lower_corner_x m0)) (Finite (upper_corner_x m0)))
                        (Finite (of_int (y_length m0)))
                in and_then (for_each (place_one rnd total_x total_y pixel_size_x pixel_size_y bounds)
                               (zip meta_data_list np_array_list) combined_array)
                     (\<lambda>c. Inr (c, total_x, total_y))))))"





text \<open>
  Two meshes of one cell: the first \<open>1 / 2 ^ 30\<close> degrees wide, the second with its
  lower corner \<open>2 - 1 / 2 ^ 30\<close> degrees to the right and its upper corner at 0.
  The bounds are the least lower and the greatest upper corner of the two.
\<close>

definition narrow_mesh :: Metadata where
  "narrow_mesh = \<lparr>mesh_code = [], file_name = [], dem_type = [],
     lower_corner_x = 0, lower_corner_y = 0, upper_corner_x = 1,
     upper_corner_y = 1 / 1073741824,
     x_length = 1, y_length = 1, start_x = 0, start_y = 0\<rparr>"

definition far_mesh :: Metadata where
  "far_mesh = narrow_mesh\<lparr>lower_corner_y := 2147483647 / 1073741824, upper_corner_y := 0\<rparr>"

definition narrow_bounds :: BoundsLatLng where
  "narrow_bounds = \<lparr>min_lat = 0, max_lat = 1, min_lng = 0, max_lng = 1 / 1073741824\<rparr>"


section \<open>Rasters: \<^verbatim>\<open>GeoTiffData\<close>, the mosaic merger and the reprojector\<close>

text \<open>
  \<^verbatim>\<open>struct GeoTiffData\<close>: the pixels row by row, the size, the six numbers of the
  affine transform, the EPSG code and the optional no-data value.  A pixel and the
  no-data value are \<^verbatim>\<open>float\<close>s that can be NaN: \<^verbatim>\<open>read_geotiff\<close> sets the
  no-data value to NaN when the file declares none, and to the \<^verbatim>\<open>atof\<close> of the
  declared text otherwise, which is NaN for the text \<open>nan\<close>.
\<close>

record GeoTiffData =
  data :: "ieee list"
  width :: int
  height :: int
  geo_transform :: "double list"
  epsg :: int
  nodata_value :: ieee
  has_nodata :: bool

text \<open>
  The body of the two loops of \<^verbatim>\<open>merge_tif_files\<close> over the pixels
  \<open>(row, col)\<close> of one source raster: the pixel is written to the output only
  inside the output raster and only when
  \<^verbatim>\<open>!src.has_nodata || value != src.nodata_value\<close>.  Reading or writing outside
  a vector is an error.
\<close>

definition merge_pixel ::
  "GeoTiffData \<Rightarrow> int \<Rightarrow> int \<Rightarrow> int \<Rightarrow> int \<Rightarrow> nat \<Rightarrow> nat \<Rightarrow> ieee list
     \<Rightarrow> error + ieee list" where
  "merge_pixel src dst_row_start dst_col_start out_width out_height row col output_data =
     (let dst_row = int32 (dst_row_start + int row);
          dst_col = int32 (dst_col_start + int col)
      in if dst_row \<ge> 0 \<and> dst_row < out_height \<and> dst_col \<ge> 0 \<and> dst_col < out_width then
           (if nat (int row * width src + int col) < length (data src) then
              (let v = data src ! nat (int row * width src + int col)
               in if \<not> has_nodata src \<or> fne v (nodata_value src) then
                    (if nat (dst_row * out_width + dst_col) < length output_data
                     then Inr (output_data[nat (dst_row * out_width + dst_col) := v])
                     else Inl OutOfBounds)
                  else Inr output_data)
            else Inl OutOfBounds)
         else Inr output_data)"

text \<open>
  \<^verbatim>\<open>for (int row = 0; row < src.height; ++row)
  for (int col = 0; col < src.width; ++col)\<close> for one source raster placed at
  \<open>(dst_row_start, dst_col_start)\<close>.
\<close>

definition merge_dataset ::
  "GeoTiffData \<Rightarrow> int \<Rightarrow> int \<Rightarrow> int \<Rightarrow> int \<Rightarrow> ieee list \<Rightarrow> error + ieee list" where
  "merge_dataset src dst_row_start dst_col_start out_width out_height output_data =
     for_each
       (\<lambda>row. for_each
                 (merge_pixel src dst_row_start dst_col_start out_width out_height row)
                 [0 ..< nat (width src)])
       [0 ..< nat (height src)] output_data"

text \<open>
  The loop over the datasets: the offsets of each source raster are rounded from its
  origin, the origin \<open>(min_x, max_y)\<close> of the output and the output pixel size.
\<close>

definition merge_one ::
  "double \<Rightarrow> double \<Rightarrow> double \<Rightarrow> double \<Rightarrow> int \<Rightarrow> int \<Rightarrow> GeoTiffData \<Rightarrow> ieee list
     \<Rightarrow> error + ieee list" where
  "merge_one min_x max_y pixel_width pixel_height out_width out_height src output_data =
     (let src_x0 = geo_transform src ! 0;
          src_y0 = geo_transform src ! 3
      in and_then (ddiv (src_x0 - min_x) pixel_width)
           (\<lambda>qx.
         and_then (cast_int (std_round qx))
           (\<lambda>dst_col_start.
         and_then (ddiv (max_y - src_y0) pixel_height)
           (\<lambda>qy.
         and_then (cast_int (std_round qy))
           (\<lambda>dst_row_start.
              merge_dataset src dst_row_start dst_col_start out_width out_height
                output_data)))))"

definition merge_datasets ::
  "double \<Rightarrow> double \<Rightarrow> double \<Rightarrow> double \<Rightarrow> int \<Rightarrow> int \<Rightarrow> GeoTiffData list \<Rightarrow> ieee list
     \<Rightarrow> error + ieee list" where
  "merge_datasets min_x max_y pixel_width pixel_height out_width out_height datasets output_data =
     for_each (merge_one min_x max_y pixel_width pixel_height out_width out_height)
       datasets output_data"


definition nan_then_three :: GeoTiffData where
  "nan_then_three = \<lparr>data = [NaN, Finite 3], width = 2, height = 1,
     geo_transform = [0, 1, 0, 0, 0, - 1], epsg = 4326,
     nodata_value = NaN, has_nodata = True\<rparr>"

subsection \<open>The reprojector: \<^verbatim>\<open>GeoTiff::resampling\<close>\<close>

text \<open>
  Reading one source pixel
  \<^verbatim>\<open>src_data.data[static_cast<size_t>(row) * src_data.width + col]\<close>, checked:
  the index is computed in \<^verbatim>\<open>size_t\<close>, where a negative sum is an index beyond
  every vector.
\<close>

definition read_pixel :: "GeoTiffData \<Rightarrow> int \<Rightarrow> int \<Rightarrow> error + ieee" where
  "read_pixel src_data row col =
     (if 0 \<le> row * width src_data + col
         \<and> nat (row * width src_data + col) < length (data src_data)
      then Inr (data src_data ! nat (row * width src_data + col))
      else Inl OutOfBounds)"

text \<open>
  \<^verbatim>\<open>static_cast<float>\<close> of a \<^verbatim>\<open>double\<close>, and the blended value
  \<^verbatim>\<open>static_cast<float>((1 - dx) * (1 - dy) * v00 + dx * (1 - dy) * v01 +
  (1 - dx) * dy * v10 + dx * dy * v11)\<close>: \<open>rd\<close> rounds the result of each
  operation to a \<^verbatim>\<open>double\<close>, \<open>rf\<close> rounds the sum to a \<^verbatim>\<open>float\<close>.
\<close>

fun fcast :: "rounding \<Rightarrow> ieee \<Rightarrow> ieee" where
  "fcast rnd (Finite x) = rnd x"
| "fcast rnd a = a"

definition blend ::
  "rounding \<Rightarrow> rounding \<Rightarrow> ieee \<Rightarrow> ieee \<Rightarrow> ieee \<Rightarrow> ieee \<Rightarrow> ieee \<Rightarrow> ieee \<Rightarrow> ieee" where
  "blend rd rf dx dy v00 v01 v10 v11 =
     fcast rf
       (fadd rd
          (fadd rd
             (fadd rd
                (fmul rd (fmul rd (fsub rd (Finite 1) dx) (fsub rd (Finite 1) dy)) v00)
                (fmul rd (fmul rd dx (fsub rd (Finite 1) dy)) v01))
             (fmul rd (fmul rd (fsub rd (Finite 1) dx) dy) v10))
          (fmul rd (fmul rd dx dy) v11))"

text \<open>
  The bilinear interpolation of one destination pixel, from the fractional source
  position \<open>(src_col_f, src_row_f)\<close> and its floor \<open>(src_col0, src_row0)\<close>:
  \<open>Some\<close> the blended value, or \<open>None\<close> when the destination pixel is left as it is
  (the neighbourhood leaves the raster, or the \<^verbatim>\<open>continue\<close> of the no-data check).
\<close>

definition bilinear ::
  "rounding \<Rightarrow> rounding \<Rightarrow> GeoTiffData \<Rightarrow> double \<Rightarrow> double \<Rightarrow> int \<Rightarrow> int
     \<Rightarrow> error + ieee option" where
  "bilinear rd rf src_data src_col_f src_row_f src_col0 src_row0 =
     (let src_col1 = int32 (src_col0 + 1);
          src_row1 = int32 (src_row0 + 1)
      in if src_col0 \<ge> 0 \<and> src_col1 < width src_data \<and> src_row0 \<ge> 0
            \<and> src_row1 < height src_data then
           (let dx = fsub rd (Finite src_col_f) (Finite (of_int src_col0));
                dy = fsub rd (Finite src_row_f) (Finite (of_int src_row0))
            in and_then (read_pixel src_data src_row0 src_col0)
                 (\<lambda>v00.
               and_then (read_pixel src_data src_row0 src_col1)
                 (\<lambda>v01.
               and_then (read_pixel src_data src_row1 src_col0)
                 (\<lambda>v10.
               and_then (read_pixel src_data src_row1 src_col1)
                 (\<lambda>v11.
                    if has_nodata src_data
                       \<and> (feq v00 (nodata_value src_data) \<or> feq v01 (nodata_value src_data)
                          \<or> feq v10 (nodata_value src_data) \<or> feq v11 (nodata_value src_data))
                    then Inr None
                    else Inr (Some (blend rd rf dx dy v00 v01 v10 v11)))))))
         else Inr None)"

text \<open>
  The fractional source position of the centre of destination pixel
  \<open>(dst_row, dst_col)\<close>.  \<open>inv_transform\<close> stands for
  \<^verbatim>\<open>proj_trans(inv_transform, PJ_FWD, _)\<close> of the PROJ library.
\<close>

definition source_position ::
  "GeoTiffData \<Rightarrow> (double \<times> double \<Rightarrow> double \<times> double) \<Rightarrow> double \<Rightarrow> double \<Rightarrow> double \<Rightarrow> double
     \<Rightarrow> nat \<Rightarrow> nat \<Rightarrow> error + (double \<times> double)" where
  "source_position src_data inv_transform dst_min_x dst_max_y dst_pixel_width dst_pixel_height
       dst_row dst_col =
     (let dst_x = dst_min_x + (of_nat dst_col + 1 / 2) * dst_pixel_width;
          dst_y = dst_max_y - (of_nat dst_row + 1 / 2) * dst_pixel_height;
          src_coord = inv_transform (dst_x, dst_y)
      in and_then (ddiv (fst src_coord - geo_transform src_data ! 0) (geo_transform src_data ! 1))
           (\<lambda>qc.
         and_then (ddiv (geo_transform src_data ! 3 - snd src_coord)
                     (- (geo_transform src_data ! 5)))
           (\<lambda>qr. Inr (qc - 1 / 2, qr - 1 / 2))))"

text \<open>The body of the two loops over the destination pixels.\<close>

definition resample_pixel ::
  "rounding \<Rightarrow> rounding \<Rightarrow> GeoTiffData \<Rightarrow> (double \<times> double \<Rightarrow> double \<times> double)
     \<Rightarrow> double \<Rightarrow> double \<Rightarrow> double \<Rightarrow> double
     \<Rightarrow> int \<Rightarrow> nat \<Rightarrow> nat \<Rightarrow> ieee list \<Rightarrow> error + ieee list" where
  "resample_pixel rd rf src_data inv_transform dst_min_x dst_max_y dst_pixel_width
       dst_pixel_height dst_width dst_row dst_col dst =
     and_then (source_position src_data inv_transform dst_min_x dst_max_y dst_pixel_width
                 dst_pixel_height dst_row dst_col)
       (\<lambda>(src_col_f, src_row_f).
     and_then (cast_int \<lfloor>src_col_f\<rfloor>)
       (\<lambda>src_col0.
     and_then (cast_int \<lfloor>src_row_f\<rfloor>)
       (\<lambda>src_row0.
     and_then (bilinear rd rf src_data src_col_f src_row_f src_col0 src_row0)
       (\<lambda>blended.
          (case blended of
             None \<Rightarrow> Inr dst
           | Some v \<Rightarrow>
               if nat (int dst_row * dst_width + int dst_col) < length dst
               then Inr (dst[nat (int dst_row * dst_width + int dst_col) := v])
               else Inl OutOfBounds)))))"

text \<open>
  The destination pixels: a vector of \<open>dst_width * dst_height\<close> copies of the source's
  \<^verbatim>\<open>nodata_value\<close>, then the two loops.
\<close>

definition resample_pixels ::
  "rounding \<Rightarrow> rounding \<Rightarrow> GeoTiffData \<Rightarrow> (double \<times> double \<Rightarrow> double \<times> double)
     \<Rightarrow> double \<Rightarrow> double \<Rightarrow> double \<Rightarrow> double
     \<Rightarrow> int \<Rightarrow> int \<Rightarrow> error + ieee list" where
  "resample_pixels rd rf src_data inv_transform dst_min_x dst_max_y dst_pixel_width
       dst_pixel_height dst_width dst_height =
     for_each
       (\<lambda>dst_row. for_each
          (resample_pixel rd rf src_data inv_transform dst_min_x dst_max_y dst_pixel_width
             dst_pixel_height dst_width dst_row)
          [0 ..< nat dst_width])
       [0 ..< nat dst_height]
       (replicate (nat dst_width * nat dst_height) (nodata_value src_data))"

text \<open>A raster of 2 by 2 pixels with the values 1 to 4.\<close>

definition four_pixels :: GeoTiffData where
  "four_pixels = \<lparr>data = [Finite 1, Finite 2, Finite 3, Finite 4], width = 2, height = 2,
     geo_transform = [0, 1, 0, 0, 0, - 1], epsg = 4326,
     nodata_value = Finite (- 9999), has_nodata = True\<rparr>"

subsection \<open>The whole of \<^verbatim>\<open>GeoTiff::resampling\<close>\<close>

text \<open>
  The file system is a map from paths to the rasters stored there.  The PROJ
  library and the outcome of each file operation are the environment: the CRS strings
  \<^verbatim>\<open>proj_create\<close> accepts, the equivalence test, the normalised transform of
  \<^verbatim>\<open>proj_create_crs_to_crs\<close>, whether \<^verbatim>\<open>write_geotiff\<close> succeeds on a path
  and what a failed write leaves there, and whether \<^verbatim>\<open>std::filesystem::remove\<close>
  and \<^verbatim>\<open>std::filesystem::rename\<close> succeed.  The environment also holds the
  rounding to \<^verbatim>\<open>double\<close> and to \<^verbatim>\<open>float\<close> of the machine, for the blend
  of the pixels.
\<close>

type_synonym path = string
type_synonym filesystem = "path \<Rightarrow> GeoTiffData option"

record environment =
  proj_context_create :: bool
  proj_create :: "string \<Rightarrow> bool"
  proj_is_equivalent_to :: "string \<Rightarrow> string \<Rightarrow> bool"
  proj_create_crs_to_crs :: "string \<Rightarrow> string \<Rightarrow> (double \<times> double \<Rightarrow> double \<times> double) option"
  write_succeeds :: "path \<Rightarrow> bool"
  failed_write_leaves :: "GeoTiffData option"
  remove_succeeds :: "path \<Rightarrow> bool"
  rename_succeeds :: "path \<Rightarrow> path \<Rightarrow> bool"
  round_double :: rounding
  round_float :: rounding

definition read_geotiff :: "filesystem \<Rightarrow> path \<Rightarrow> GeoTiffData option" where
  "read_geotiff fs p = fs p"

definition write_geotiff ::
  "environment \<Rightarrow> path \<Rightarrow> GeoTiffData \<Rightarrow> filesystem \<Rightarrow> bool \<times> filesystem" where
  "write_geotiff env p d fs =
     (if write_succeeds env p then (True, fs(p \<mapsto> d))
      else (False, fs(p := failed_write_leaves env)))"

text \<open>
  \<^verbatim>\<open>std::filesystem::remove\<close> and \<^verbatim>\<open>std::filesystem::rename\<close> in their
  throwing overloads: a failure is the exception \<open>FilesystemError\<close>.
\<close>

definition fs_remove :: "environment \<Rightarrow> path \<Rightarrow> filesystem \<Rightarrow> error + filesystem" where
  "fs_remove env p fs =
     (if remove_succeeds env p then Inr (fs(p := None)) else Inl FilesystemError)"

definition fs_rename :: "environment \<Rightarrow> path \<Rightarrow> path \<Rightarrow> filesystem \<Rightarrow> error + filesystem" where
  "fs_rename env old_p new_p fs =
     (if rename_succeeds env old_p new_p \<and> fs old_p \<noteq> None
      then Inr ((fs(new_p := fs old_p))(old_p := None))
      else Inl FilesystemError)"

text \<open>
  \<^verbatim>\<open>path::extension\<close> and \<^verbatim>\<open>path::replace_extension\<close> on a path with the
  separator \<open>/\<close>: the extension of the last path component starts at its last dot,
  unless that dot is its first character or the component is \<open>.\<close> or \<open>..\<close>.
\<close>

definition filename_of :: "path \<Rightarrow> string" where
  "filename_of p = rev (takeWhile (\<lambda>c. c \<noteq> CHR ''/'') (rev p))"

definition extension_of :: "path \<Rightarrow> string" where
  "extension_of p =
     (let f = filename_of p;
          e = rev (takeWhile (\<lambda>c. c \<noteq> CHR ''.'') (rev f))
      in if CHR ''.'' \<notin> set f \<or> f = ''.'' \<or> f = ''..'' \<or> length e + 1 = length f then []
         else CHR ''.'' # e)"

definition replace_extension :: "path \<Rightarrow> string \<Rightarrow> path" where
  "replace_extension p replacement = take (length p - length (extension_of p)) p @ replacement"

text \<open>
  \<^verbatim>\<open>std::stoi\<close>: leading white space, an optional sign, then decimal digits; no
  digit, or a value outside \<^verbatim>\<open>int\<close>, throws.
\<close>

definition is_space :: "char \<Rightarrow> bool" where
  "is_space c = (c = CHR '' '' \<or> c = CHR 0x09 \<or> c = CHR 0x0A \<or> c = CHR 0x0B
                 \<or> c = CHR 0x0C \<or> c = CHR 0x0D)"

definition is_digit :: "char \<Rightarrow> bool" where
  "is_digit c = (48 \<le> (of_char c :: nat) \<and> (of_char c :: nat) \<le> 57)"

definition digits_value :: "string \<Rightarrow> nat" where
  "digits_value ds = foldl (\<lambda>a c. 10 * a + (of_char c - 48)) 0 ds"

definition stoi :: "string \<Rightarrow> error + int" where
  "stoi s =
     (let t = dropWhile is_space s;
          negative = (t \<noteq> [] \<and> hd t = CHR ''-'');
          u = (if t \<noteq> [] \<and> (hd t = CHR ''-'' \<or> hd t = CHR ''+'') then tl t else t);
          ds = takeWhile is_digit u;
          v = (if negative then - int (digits_value ds) else int (digits_value ds))
      in if ds = [] then Inl StoiFailure
         else if int_in_range v then Inr v
         else Inl StoiFailure)"

text \<open>
  The EPSG code of the output:
  \<^verbatim>\<open>if (dst_crs.find("EPSG:") == 0) dst_data.epsg = std::stoi(dst_crs.substr(5));\<close>
  and 0 otherwise.
\<close>

definition output_epsg_code :: "string \<Rightarrow> error + int" where
  "output_epsg_code dst_crs =
     (if take 5 dst_crs = ''EPSG:'' then stoi (drop 5 dst_crs) else Inr 0)"

text \<open>
  The destination grid: the bounding box of the four projected corners of the source
  (the running minimum and maximum start from the first corner here, from the largest
  and the smallest \<^verbatim>\<open>double\<close> in the source), the pixel size scaled by 111000, and
  the size, at least 1 by 1.  The result is
  \<open>(dst_min_x, dst_max_y, dst_pixel_width, dst_pixel_height, dst_width, dst_height)\<close>.
\<close>

definition destination_grid ::
  "GeoTiffData \<Rightarrow> (double \<times> double \<Rightarrow> double \<times> double)
     \<Rightarrow> error + (double \<times> double \<times> double \<times> double \<times> int \<times> int)" where
  "destination_grid src_data transform =
     (let g = geo_transform src_data;
          x0 = g ! 0;
          y0 = g ! 3;
          x1 = g ! 0 + of_int (width src_data) * g ! 1;
          y1 = g ! 3 + of_int (height src_data) * g ! 5;
          dst_corners = map transform [(x0, y0), (x1, y0), (x0, y1), (x1, y1)];
          xs = map fst dst_corners;
          ys = map snd dst_corners;
          dst_min_x = fold min (tl xs) (hd xs);
          dst_max_x = fold max (tl xs) (hd xs);
          dst_min_y = fold min (tl ys) (hd ys);
          dst_max_y = fold max (tl ys) (hd ys);
          src_pixel_width = g ! 1;
          src_pixel_height = - (g ! 5);
          dst_pixel_width = src_pixel_width * 111000;
          dst_pixel_height = src_pixel_height * 111000
      in and_then (ddiv (dst_max_x - dst_min_x) dst_pixel_width)
           (\<lambda>qx.
         and_then (cast_int \<lceil>qx\<rceil>)
           (\<lambda>w.
         and_then (ddiv (dst_max_y - dst_min_y) dst_pixel_height)
           (\<lambda>qy.
         and_then (cast_int \<lceil>qy\<rceil>)
           (\<lambda>h. Inr (dst_min_x, dst_max_y, dst_pixel_width, dst_pixel_height,
                      max w 1, max h 1))))))"

text \<open>
  The end of \<^verbatim>\<open>resampling\<close>: the result is written to the temporary path, the
  original is removed, the temporary file is renamed.  The result is the outcome and
  the file system afterwards.
\<close>

definition write_and_replace ::
  "environment \<Rightarrow> path \<Rightarrow> path \<Rightarrow> GeoTiffData \<Rightarrow> filesystem \<Rightarrow> (error + unit) \<times> filesystem" where
  "write_and_replace env output_path temp_path dst_data fs =
     (case write_geotiff env temp_path dst_data fs of
        (False, fs1) \<Rightarrow> (Inl IoError, fs1)
      | (True, fs1) \<Rightarrow>
          (case fs_remove env output_path fs1 of
             Inl e \<Rightarrow> (Inl e, fs1)
           | Inr fs2 \<Rightarrow>
               (case fs_rename env temp_path output_path fs2 of
                  Inl e \<Rightarrow> (Inl e, fs2)
                | Inr fs3 \<Rightarrow> (Inr (), fs3))))"

text \<open>
  \<^verbatim>\<open>GeoTiff::resampling\<close> on the file at \<open>output_path\<close>.  \<open>Inr ()\<close> is the return
  value \<^verbatim>\<open>true\<close>; \<open>Inl e\<close> is the return value \<^verbatim>\<open>false\<close> with the error code
  \<open>e\<close>, or the exception \<open>e\<close>.
\<close>

definition resampling ::
  "environment \<Rightarrow> path \<Rightarrow> string \<Rightarrow> filesystem \<Rightarrow> (error + unit) \<times> filesystem" where
  "resampling env output_path output_epsg fs =
     (case read_geotiff fs output_path of
        None \<Rightarrow> (Inl NoSuchFile, fs)
      | Some src_data \<Rightarrow>
          if \<not> proj_context_create env then (Inl NotEnoughMemory, fs)
          else
            (let src_crs = ''EPSG:4326'';
                 dst_crs = output_epsg
             in if \<not> proj_create env src_crs \<or> \<not> proj_create env dst_crs
                then (Inl InvalidArgument, fs)
                else if proj_is_equivalent_to env src_crs dst_crs then (Inr (), fs)
                else
                  (case proj_create_crs_to_crs env src_crs dst_crs of
                     None \<Rightarrow> (Inl InvalidArgument, fs)
                   | Some transform \<Rightarrow>
                       (case destination_grid src_data transform of
                          Inl e \<Rightarrow> (Inl e, fs)
                        | Inr (dst_min_x, dst_max_y, dst_pixel_width, dst_pixel_height,
                               dst_width, dst_height) \<Rightarrow>
                            (case proj_create_crs_to_crs env dst_crs src_crs of
                               None \<Rightarrow> (Inl InvalidArgument, fs)
                             | Some inv_transform \<Rightarrow>
                                 (case output_epsg_code dst_crs of
                                    Inl e \<Rightarrow> (Inl e, fs)
                                  | Inr code \<Rightarrow>
                                      (case resample_pixels (round_double env) (round_float env)
                                              src_data inv_transform dst_min_x
                                              dst_max_y dst_pixel_width dst_pixel_height
                                              dst_width dst_height of
                                         Inl e \<Rightarrow> (Inl e, fs)
                                       | Inr pixels \<Rightarrow>
                                           write_and_replace env output_path
                                             (replace_extension output_path ''.tmp.tif'')
                                             \<lparr>data = pixels, width = dst_width,
                                              height = dst_height,
                                              geo_transform = [dst_min_x, dst_pixel_width, 0,
                                                               dst_max_y, 0, - dst_pixel_height],
                                              epsg = code,
                                              nodata_value = nodata_value src_data,
                                              has_nodata = has_nodata src_data\<rparr>
                                             fs)))))))"

text \<open>
  An environment in which every step succeeds (PROJ accepts three CRS strings and
  answers with the identity transform, the arithmetic is exact), one in which the
  final rename fails, and a file system holding one raster.
\<close>

definition all_succeed :: environment where
  "all_succeed = \<lparr>proj_context_create = True,
     proj_create = (\<lambda>s. s = ''EPSG:4326'' \<or> s = ''EPSG:3857'' \<or> s = ''ESRI:54009''),
     proj_is_equivalent_to = (\<lambda>a b. a = b),
     proj_create_crs_to_crs = (\<lambda>a b. Some (\<lambda>p. p)),
     write_succeeds = (\<lambda>p. True),
     failed_write_leaves = None,
     remove_succeeds = (\<lambda>p. True),
     rename_succeeds = (\<lambda>a b. True),
     round_double = exact,
     round_float = exact\<rparr>"

definition rename_fails :: environment where
  "rename_fails = all_succeed\<lparr>rename_succeeds := (\<lambda>a b. False)\<rparr>"

definition one_raster :: filesystem where
  "one_raster = (\<lambda>p. if p = ''out/a.tif'' then Some four_pixels else None)"

section \<open>Properties of the mesh text parser\<close>

lemma suffix_parse_double_pair: "suffix (fst (parse_double_pair fc p a b)) p"
proof -
  have "suffix (dropWhile not_lt (dropWhile is_blank p)) p"
    by (meson suffix_dropWhile suffix_order.trans)
  then show ?thesis
    by (auto simp: parse_double_pair_def Let_def split: option.splits)
qed

lemma suffix_parse_int_pair: "suffix (fst (parse_int_pair p a b)) p"
proof -
  have "suffix (dropWhile not_lt (dropWhile is_blank p)) p"
    by (meson suffix_dropWhile suffix_order.trans)
  then show ?thesis
    by (auto simp: parse_int_pair_def Let_def split: option.splits)
qed

lemma suffix_parse_simple_text: "suffix (fst (parse_simple_text p)) p"
proof -
  have "suffix (drop n (dropWhile is_blank p)) p" for n
    by (meson suffix_drop suffix_dropWhile suffix_order.trans)
  then show ?thesis by (simp add: parse_simple_text_def Let_def)
qed

lemma suffix_tuple_loop: "suffix (fst (tuple_loop fc sea_at_zero p elevation)) p"
proof (induction fc sea_at_zero p elevation rule: tuple_loop.induct)
  case (1 fc sea_at_zero p elevation)
  show ?case
  proof (cases "p = [] \<or> hd p = CHR ''<'' \<or> CHR '','' \<notin> set p")
    case True
    then show ?thesis by (subst tuple_loop.simps) simp
  next
    case False
    let ?value_end = "dropWhile value_char (tl (dropWhile not_comma p))"
    let ?next = "if ?value_end \<noteq> [] \<and> hd ?value_end = CHR 0x0A then tl ?value_end
                 else ?value_end"
    have "suffix (fst (tuple_loop fc sea_at_zero ?next
             (elevation @ [record_value fc sea_at_zero (takeWhile not_comma p)
                 (takeWhile value_char (tl (dropWhile not_comma p)))]))) ?next"
      by (rule "1.IH"[OF False refl refl refl refl refl])
    moreover have "suffix ?next ?value_end" by (simp add: suffix_tl)
    moreover have "suffix ?value_end p"
      by (meson suffix_dropWhile suffix_tl suffix_order.trans)
    ultimately show ?thesis
      using False by (subst tuple_loop.simps) (auto simp: Let_def intro: suffix_order.trans)
  qed
qed

lemma suffix_parse_tuple_list: "suffix (fst (parse_tuple_list fc sea_at_zero p elevation)) p"
  unfolding parse_tuple_list_def
  by (meson suffix_tuple_loop suffix_dropWhile suffix_order.trans)

lemma tag_behind_lt:
  assumes "dropWhile not_lt xs = lt # p" and "starts_with p t"
  shows "sublist (CHR ''<'' # t) xs"
proof -
  have "\<not> not_lt (hd (dropWhile not_lt xs))"
    by (rule hd_dropWhile) (simp add: assms(1))
  then have lt: "lt = CHR ''<''" using assms(1) by (simp add: not_lt_def)
  have "prefix t p" using assms(2) by (metis starts_with_def take_is_prefix)
  then have "prefix (CHR ''<'' # t) (lt # p)" using lt by simp
  moreover have "suffix (lt # p) xs" using assms(1) by (metis suffix_dropWhile)
  ultimately show ?thesis
    by (meson prefix_imp_sublist suffix_imp_sublist sublist_order.order_trans)
qed

lemma behind_lt_suffix:
  assumes "dropWhile not_lt xs = lt # p" and "suffix ys (drop k p)"
  shows "suffix ys xs"
proof -
  have "suffix (lt # p) xs" using assms(1) by (metis suffix_dropWhile)
  moreover have "suffix (drop k p) (lt # p)"
    by (meson suffix_ConsI suffix_drop)
  ultimately show ?thesis using assms(2) by (meson suffix_order.trans)
qed

lemma absent_in_suffix:
  assumes "\<forall>t\<in>T. \<not> sublist (CHR ''<'' # t) xs" and "suffix ys xs"
  shows "\<forall>t\<in>T. \<not> sublist (CHR ''<'' # t) ys"
  using assms by (meson suffix_imp_sublist sublist_order.order_trans)


lemma parse_loop_frame:
  fixes F :: "ParsedData \<Rightarrow> 'a"
  assumes absent: "\<forall>t\<in>T. \<not> sublist (CHR ''<'' # t) xs"
    and u1: "\<And>d a b. ''gml:lowerCorner>'' \<notin> T \<Longrightarrow> F (d\<lparr>ParsedData.lower_corner_x := a, ParsedData.lower_corner_y := b, has_lower_corner := True\<rparr>) = F d"
    and u2: "\<And>d a b. ''gml:upperCorner>'' \<notin> T \<Longrightarrow> F (d\<lparr>ParsedData.upper_corner_x := a, ParsedData.upper_corner_y := b, has_upper_corner := True\<rparr>) = F d"
    and u3: "\<And>d i j. ''gml:low>'' \<notin> T \<Longrightarrow> F (d\<lparr>grid_low_x := i, grid_low_y := j\<rparr>) = F d"
    and u4: "\<And>d i j. ''gml:high>'' \<notin> T \<Longrightarrow> F (d\<lparr>grid_high_x := i, grid_high_y := j, has_grid_envelope := True\<rparr>) = F d"
    and u5: "\<And>d a b. ''gml:startPoint>'' \<notin> T \<Longrightarrow> F (d\<lparr>ParsedData.start_x := a, ParsedData.start_y := b, has_start_point := True\<rparr>) = F d"
    and u6: "\<And>d s. ''mesh>'' \<notin> T \<Longrightarrow> F (d\<lparr>ParsedData.mesh_code := s, has_mesh_code := True\<rparr>) = F d"
    and u7: "\<And>d s. ''type>'' \<notin> T \<Longrightarrow> F (d\<lparr>ParsedData.dem_type := s, has_dem_type := True\<rparr>) = F d"
    and u8: "\<And>d es. ''gml:tupleList>'' \<notin> T \<Longrightarrow> F (d\<lparr>elevation_list := es, has_tuple_list := True\<rparr>) = F d"
  shows "F (parse_loop fc sea_at_zero xs d) = F d"
  using absent
proof (induction fc sea_at_zero xs d rule: parse_loop.induct)
  case (1 fc sea_at_zero xs d)
  note ab = "1.prems"
  show ?case
  proof (cases "dropWhile not_lt xs")
    case Nil
    show ?thesis by (subst parse_loop.simps, subst Nil) simp
  next
    case (Cons lt p)
    note tag = tag_behind_lt[OF Cons]
    note suf = behind_lt_suffix[OF Cons]
    show ?thesis
    proof (cases "starts_with p ''gml:lowerCorner>''")
      case c1: True
      let ?r = "parse_double_pair fc (drop 16 p) (ParsedData.lower_corner_x d) (ParsedData.lower_corner_y d)"
      have notin: "''gml:lowerCorner>'' \<notin> T" using tag[OF c1] ab by blast
      have "F (parse_loop fc sea_at_zero (fst ?r) (d\<lparr>ParsedData.lower_corner_x := fst (snd ?r), ParsedData.lower_corner_y := snd (snd ?r), has_lower_corner := True\<rparr>)) = F (d\<lparr>ParsedData.lower_corner_x := fst (snd ?r), ParsedData.lower_corner_y := snd (snd ?r), has_lower_corner := True\<rparr>)"
        by (rule "1.IH"(1)[OF Cons  c1 refl absent_in_suffix[OF ab suf[OF suffix_parse_double_pair]]])
      also have "\<dots> = F d" by (rule u1[OF notin])
      finally show ?thesis
        using  c1 by (subst parse_loop.simps, subst Cons) (simp add: Let_def)
    next
      case n1: False
      show ?thesis
      proof (cases "starts_with p ''gml:upperCorner>''")
        case c2: True
        let ?r = "parse_double_pair fc (drop 16 p) (ParsedData.upper_corner_x d) (ParsedData.upper_corner_y d)"
        have notin: "''gml:upperCorner>'' \<notin> T" using tag[OF c2] ab by blast
        have "F (parse_loop fc sea_at_zero (fst ?r) (d\<lparr>ParsedData.upper_corner_x := fst (snd ?r), ParsedData.upper_corner_y := snd (snd ?r), has_upper_corner := True\<rparr>)) = F (d\<lparr>ParsedData.upper_corner_x := fst (snd ?r), ParsedData.upper_corner_y := snd (snd ?r), has_upper_corner := True\<rparr>)"
          by (rule "1.IH"(2)[OF Cons n1 c2 refl absent_in_suffix[OF ab suf[OF suffix_parse_double_pair]]])
        also have "\<dots> = F d" by (rule u2[OF notin])
        finally show ?thesis
          using n1 c2 by (subst parse_loop.simps, subst Cons) (simp add: Let_def)
      next
        case n2: False
        show ?thesis
        proof (cases "starts_with p ''gml:low>''")
          case c3: True
          let ?r = "parse_int_pair (drop 8 p) (grid_low_x d) (grid_low_y d)"
          have notin: "''gml:low>'' \<notin> T" using tag[OF c3] ab by blast
          have "F (parse_loop fc sea_at_zero (fst ?r) (d\<lparr>grid_low_x := fst (snd ?r), grid_low_y := snd (snd ?r)\<rparr>)) = F (d\<lparr>grid_low_x := fst (snd ?r), grid_low_y := snd (snd ?r)\<rparr>)"
            by (rule "1.IH"(3)[OF Cons n1 n2 c3 refl absent_in_suffix[OF ab suf[OF suffix_parse_int_pair]]])
          also have "\<dots> = F d" by (rule u3[OF notin])
          finally show ?thesis
            using n1 n2 c3 by (subst parse_loop.simps, subst Cons) (simp add: Let_def)
        next
          case n3: False
          show ?thesis
          proof (cases "starts_with p ''gml:high>''")
            case c4: True
            let ?r = "parse_int_pair (drop 9 p) (grid_high_x d) (grid_high_y d)"
            have notin: "''gml:high>'' \<notin> T" using tag[OF c4] ab by blast
            have "F (parse_loop fc sea_at_zero (fst ?r) (d\<lparr>grid_high_x := fst (snd ?r), grid_high_y := snd (snd ?r), has_grid_envelope := True\<rparr>)) = F (d\<lparr>grid_high_x := fst (snd ?r), grid_high_y := snd (snd ?r), has_grid_envelope := True\<rparr>)"
              by (rule "1.IH"(4)[OF Cons n1 n2 n3 c4 refl absent_in_suffix[OF ab suf[OF suffix_parse_int_pair]]])
            also have "\<dots> = F d" by (rule u4[OF notin])
            finally show ?thesis
              using n1 n2 n3 c4 by (subst parse_loop.simps, subst Cons) (simp add: Let_def)
          next
            case n4: False
            show ?thesis
            proof (cases "starts_with p ''gml:startPoint>''")
              case c5: True
              let ?r = "parse_double_pair fc (drop 15 p) (ParsedData.start_x d) (ParsedData.start_y d)"
              have notin: "''gml:startPoint>'' \<notin> T" using tag[OF c5] ab by blast
              have "F (parse_loop fc sea_at_zero (fst ?r) (d\<lparr>ParsedData.start_x := fst (snd ?r), ParsedData.start_y := snd (snd ?r), has_start_point := True\<rparr>)) = F (d\<lparr>ParsedData.start_x := fst (snd ?r), ParsedData.start_y := snd (snd ?r), has_start_point := True\<rparr>)"
                by (rule "1.IH"(5)[OF Cons n1 n2 n3 n4 c5 refl absent_in_suffix[OF ab suf[OF suffix_parse_double_pair]]])
              also have "\<dots> = F d" by (rule u5[OF notin])
              finally show ?thesis
                using n1 n2 n3 n4 c5 by (subst parse_loop.simps, subst Cons) (simp add: Let_def)
            next
              case n5: False
              show ?thesis
              proof (cases "starts_with p ''mesh>''")
                case c6: True
                let ?r = "parse_simple_text (drop 5 p)"
                have notin: "''mesh>'' \<notin> T" using tag[OF c6] ab by blast
                have "F (parse_loop fc sea_at_zero (fst ?r) (d\<lparr>ParsedData.mesh_code := snd ?r, has_mesh_code := True\<rparr>)) = F (d\<lparr>ParsedData.mesh_code := snd ?r, has_mesh_code := True\<rparr>)"
                  by (rule "1.IH"(6)[OF Cons n1 n2 n3 n4 n5 c6 refl absent_in_suffix[OF ab suf[OF suffix_parse_simple_text]]])
                also have "\<dots> = F d" by (rule u6[OF notin])
                finally show ?thesis
                  using n1 n2 n3 n4 n5 c6 by (subst parse_loop.simps, subst Cons) (simp add: Let_def)
              next
                case n6: False
                show ?thesis
                proof (cases "starts_with p ''type>''")
                  case c7: True
                  let ?r = "parse_simple_text (drop 5 p)"
                  have notin: "''type>'' \<notin> T" using tag[OF c7] ab by blast
                  have "F (parse_loop fc sea_at_zero (fst ?r) (d\<lparr>ParsedData.dem_type := snd ?r, has_dem_type := True\<rparr>)) = F (d\<lparr>ParsedData.dem_type := snd ?r, has_dem_type := True\<rparr>)"
                    by (rule "1.IH"(7)[OF Cons n1 n2 n3 n4 n5 n6 c7 refl absent_in_suffix[OF ab suf[OF suffix_parse_simple_text]]])
                  also have "\<dots> = F d" by (rule u7[OF notin])
                  finally show ?thesis
                    using n1 n2 n3 n4 n5 n6 c7 by (subst parse_loop.simps, subst Cons) (simp add: Let_def)
                next
                  case n7: False
                  show ?thesis
                  proof (cases "starts_with p ''gml:tupleList>''")
                    case c8: True
                    let ?r = "parse_tuple_list fc sea_at_zero (drop 14 p) (elevation_list d)"
                    have notin: "''gml:tupleList>'' \<notin> T" using tag[OF c8] ab by blast
                    let ?d1 = "d\<lparr>elevation_list := snd ?r, has_tuple_list := True\<rparr>"
                    have d1: "F ?d1 = F d" by (rule u8[OF notin])
                    show ?thesis
                    proof (cases "has_lower_corner ?d1 \<and> has_upper_corner ?d1 \<and> has_grid_envelope ?d1 \<and> has_start_point ?d1")
                      case True
                      then have "parse_loop fc sea_at_zero xs d = ?d1"
                        using n1 n2 n3 n4 n5 n6 n7 c8 by (subst parse_loop.simps, subst Cons) (simp add: Let_def)
                      then show ?thesis using d1 by simp
                    next
                      case False
                      have "F (parse_loop fc sea_at_zero (fst ?r) ?d1) = F ?d1"
                        by (rule "1.IH"(8)[OF Cons n1 n2 n3 n4 n5 n6 n7 c8 refl refl False absent_in_suffix[OF ab suf[OF suffix_parse_tuple_list]]])
                      moreover have "parse_loop fc sea_at_zero xs d = parse_loop fc sea_at_zero (fst ?r) ?d1"
                        using n1 n2 n3 n4 n5 n6 n7 c8 False by (subst parse_loop.simps, subst Cons) (auto simp: Let_def)
                      ultimately show ?thesis using d1 by simp
                    qed
                  next
                    case n8: False
                    have "suffix p xs" using suf[of p 0] by simp
                    then have "F (parse_loop fc sea_at_zero p d) = F d"
                      by (intro "1.IH"(9)[OF Cons n1 n2 n3 n4 n5 n6 n7 n8] absent_in_suffix[OF ab])
                    then show ?thesis
                      using n1 n2 n3 n4 n5 n6 n7 n8 by (subst parse_loop.simps, subst Cons) simp
                  qed
                qed
              qed
            qed
          qed
        qed
      qed
    qed
  qed
qed



lemma absent_grid_high:
  assumes "\<not> sublist ''<gml:high>'' xs"
  shows "(\<lambda>d. (has_grid_envelope d, grid_high_x d, grid_high_y d))
           (parse_loop fc sea_at_zero xs d)
         = (has_grid_envelope d, grid_high_x d, grid_high_y d)"
  by (rule parse_loop_frame[where T = "{''gml:high>''}"]) (use assms in simp_all)


lemma absent_start_point:
  assumes "\<not> sublist ''<gml:startPoint>'' xs"
  shows "(\<lambda>d. (has_start_point d, ParsedData.start_x d, ParsedData.start_y d))
           (parse_loop fc sea_at_zero xs d)
         = (has_start_point d, ParsedData.start_x d, ParsedData.start_y d)"
  by (rule parse_loop_frame[where T = "{''gml:startPoint>''}"]) (use assms in simp_all)



lemma absent_tuple_list:
  assumes "\<not> sublist ''<gml:tupleList>'' xs"
  shows "(\<lambda>d. (has_tuple_list d, elevation_list d)) (parse_loop fc sea_at_zero xs d)
         = (has_tuple_list d, elevation_list d)"
  by (rule parse_loop_frame[where T = "{''gml:tupleList>''}"]) (use assms in simp_all)









lemma record_split:
  assumes "CHR '','' \<notin> set t"
  shows "takeWhile not_comma (t @ CHR '','' # v) = t"
    "dropWhile not_comma (t @ CHR '','' # v) = CHR '','' # v"
  using assms by (auto simp: not_comma_def takeWhile_tail dropWhile_append3)

lemma tuple_loop_record:
  assumes "CHR '','' \<notin> set t" and "t = [] \<or> hd t \<noteq> CHR ''<''"
    and "\<forall>c\<in>set v. value_char c"
  shows "tuple_loop fc sea_at_zero (t @ CHR '','' # v @ CHR 0x0A # rest) elevation
           = tuple_loop fc sea_at_zero rest (elevation @ [record_value fc sea_at_zero t v])"
proof -
  let ?p = "t @ CHR '','' # v @ CHR 0x0A # rest"
  have c: "\<not> (?p = [] \<or> hd ?p = CHR ''<'' \<or> CHR '','' \<notin> set ?p)"
    using assms(2) by (cases t) auto
  have tv: "takeWhile value_char (v @ CHR 0x0A # rest) = v"
    using assms(3) by (auto simp: takeWhile_tail value_char_def)
  have dv: "dropWhile value_char (v @ CHR 0x0A # rest) = CHR 0x0A # rest"
    using assms(3) by (auto simp: dropWhile_append3 value_char_def)
  show ?thesis
    by (subst tuple_loop.simps, subst if_not_P[OF c])
       (simp only: Let_def record_split[OF assms(1)] list.sel tv dv, simp)
qed

lemma tuple_list_loop_record:
  assumes "CHR '','' \<notin> set t" and "\<forall>c\<in>set v. not_newline c"
  shows "tuple_list_loop fc sea_at_zero (t @ CHR '','' # v @ CHR 0x0A # rest) elevation
           = tuple_list_loop fc sea_at_zero rest (elevation @ [record_value fc sea_at_zero t v])"
proof -
  let ?p = "t @ CHR '','' # v @ CHR 0x0A # rest"
  have c: "\<not> CHR '','' \<notin> set ?p" by simp
  have tv: "takeWhile not_newline (v @ CHR 0x0A # rest) = v"
    using assms(2) by (auto simp: takeWhile_tail not_newline_def)
  have dv: "dropWhile not_newline (v @ CHR 0x0A # rest) = CHR 0x0A # rest"
    using assms(2) by (auto simp: dropWhile_append3 not_newline_def)
  show ?thesis
    by (subst tuple_list_loop.simps, subst if_not_P[OF c])
       (simp only: Let_def record_split[OF assms(1)] list.sel tv dv, simp)
qed

lemma record_line_append:
  "concat (map record_line (r # records)) @ ys
     = fst r @ CHR '','' # snd r @ CHR 0x0A # (concat (map record_line records) @ ys)"
  by (simp add: record_line_def)

lemma tuple_loop_records:
  assumes "\<forall>r\<in>set records. CHR '','' \<notin> set (fst r) \<and> (fst r = [] \<or> hd (fst r) \<noteq> CHR ''<'')
             \<and> (\<forall>c\<in>set (snd r). value_char c)"
  shows "tuple_loop fc sea_at_zero (concat (map record_line records) @ CHR ''<'' # rest) elevation
           = (CHR ''<'' # rest,
              elevation @ map (\<lambda>r. record_value fc sea_at_zero (fst r) (snd r)) records)"
  using assms
proof (induction records arbitrary: elevation)
  case Nil
  show ?case by (subst tuple_loop.simps) simp
next
  case (Cons r records)
  have r: "CHR '','' \<notin> set (fst r)" "fst r = [] \<or> hd (fst r) \<noteq> CHR ''<''"
    "\<forall>c\<in>set (snd r). value_char c"
    using Cons.prems by auto
  have rest: "\<forall>r\<in>set records. CHR '','' \<notin> set (fst r) \<and> (fst r = [] \<or> hd (fst r) \<noteq> CHR ''<'')
             \<and> (\<forall>c\<in>set (snd r). value_char c)"
    using Cons.prems by auto
  have "tuple_loop fc sea_at_zero (concat (map record_line (r # records)) @ CHR ''<'' # rest)
          elevation
        = tuple_loop fc sea_at_zero (concat (map record_line records) @ CHR ''<'' # rest)
            (elevation @ [record_value fc sea_at_zero (fst r) (snd r)])"
    unfolding record_line_append by (rule tuple_loop_record[OF r])
  also have "\<dots> = (CHR ''<'' # rest,
      (elevation @ [record_value fc sea_at_zero (fst r) (snd r)])
      @ map (\<lambda>r. record_value fc sea_at_zero (fst r) (snd r)) records)"
    by (rule Cons.IH[OF rest])
  finally show ?case by simp
qed

lemma tuple_list_loop_records:
  assumes "\<forall>r\<in>set records. CHR '','' \<notin> set (fst r) \<and> (\<forall>c\<in>set (snd r). not_newline c)"
  shows "tuple_list_loop fc sea_at_zero (concat (map record_line records) @ []) elevation
           = elevation @ map (\<lambda>r. record_value fc sea_at_zero (fst r) (snd r)) records"
  using assms
proof (induction records arbitrary: elevation)
  case Nil
  show ?case by (subst tuple_list_loop.simps) simp
next
  case (Cons r records)
  have r: "CHR '','' \<notin> set (fst r)" "\<forall>c\<in>set (snd r). not_newline c"
    using Cons.prems by auto
  have rest: "\<forall>r\<in>set records. CHR '','' \<notin> set (fst r) \<and> (\<forall>c\<in>set (snd r). not_newline c)"
    using Cons.prems by auto
  have "tuple_list_loop fc sea_at_zero (concat (map record_line (r # records)) @ []) elevation
        = tuple_list_loop fc sea_at_zero (concat (map record_line records) @ [])
            (elevation @ [record_value fc sea_at_zero (fst r) (snd r)])"
    unfolding record_line_append by (rule tuple_list_loop_record[OF r])
  also have "\<dots> = (elevation @ [record_value fc sea_at_zero (fst r) (snd r)])
      @ map (\<lambda>r. record_value fc sea_at_zero (fst r) (snd r)) records"
    by (rule Cons.IH[OF rest])
  finally show ?case by simp
qed

lemma value_char_not_newline: "value_char c \<Longrightarrow> not_newline c"
  by (simp add: value_char_def not_newline_def)

text \<open>
  Claim C2.  A tuple list is a sequence of records \<open>type,value\<close>, each ended by a
  line feed (the type holds no comma and does not start with \<open><\<close>, the value
  holds no line feed and no \<open><\<close>).  Both tuple-list parsers append exactly one
  value per record, in order.  With normalisation enabled, a record whose value
  parses to at most \<open>-9999\<close> and whose type is one of the two sea tags gives
  \<open>0\<close>; a record whose type is not a sea tag gives the parsed value unchanged; a
  record whose value does not parse gives the sentinel \<open>-9999\<close>, and the loop goes
  on with the next record.
\<close>

theorem sea_level_record_values:
  assumes "\<forall>r\<in>set records.
             CHR '','' \<notin> set (fst r) \<and> (fst r = [] \<or> hd (fst r) \<noteq> CHR ''<'')
             \<and> (\<forall>c\<in>set (snd r). value_char c)"
  shows "tuple_loop fc sea_at_zero (concat (map record_line records) @ CHR ''<'' # rest) elevation
           = (CHR ''<'' # rest,
              elevation @ map (\<lambda>r. record_value fc sea_at_zero (fst r) (snd r)) records)
       \<and> tuple_list_loop fc sea_at_zero (concat (map record_line records)) elevation
           = elevation @ map (\<lambda>r. record_value fc sea_at_zero (fst r) (snd r)) records
       \<and> (\<forall>t v x n. fc v = Some (x, n) \<and> x \<le> - 9999 \<and> is_sea_type t \<longrightarrow>
             record_value fc True t v = 0)
       \<and> (\<forall>t v x n. fc v = Some (x, n) \<and> \<not> is_sea_type t \<longrightarrow>
             record_value fc sea_at_zero t v = x)
       \<and> (\<forall>t v x n. fc v = Some (x, n) \<and> - 9999 < x \<longrightarrow>
             record_value fc sea_at_zero t v = x)
       \<and> (\<forall>t v. fc v = None \<longrightarrow> record_value fc sea_at_zero t v = - 9999)
       \<and> (\<forall>t. is_sea_type t \<longleftrightarrow> t = sea_surface \<or> t = sea_floor)"
proof -
  have 1: "tuple_loop fc sea_at_zero (concat (map record_line records) @ CHR ''<'' # rest) elevation
           = (CHR ''<'' # rest,
              elevation @ map (\<lambda>r. record_value fc sea_at_zero (fst r) (snd r)) records)"
    by (rule tuple_loop_records[OF assms])
  have "\<forall>r\<in>set records. CHR '','' \<notin> set (fst r) \<and> (\<forall>c\<in>set (snd r). not_newline c)"
    using assms value_char_not_newline by blast
  from tuple_list_loop_records[OF this]
  have 2: "tuple_list_loop fc sea_at_zero (concat (map record_line records)) elevation
           = elevation @ map (\<lambda>r. record_value fc sea_at_zero (fst r) (snd r)) records"
    by simp
  have 3: "\<forall>t v x n. fc v = Some (x, n) \<and> x \<le> - 9999 \<and> is_sea_type t \<longrightarrow>
             record_value fc True t v = 0"
    by (simp add: record_value_def)
  have 4: "\<forall>t v x n. fc v = Some (x, n) \<and> \<not> is_sea_type t \<longrightarrow>
             record_value fc sea_at_zero t v = x"
    by (simp add: record_value_def)
  have 5: "\<forall>t v x n. fc v = Some (x, n) \<and> - 9999 < x \<longrightarrow>
             record_value fc sea_at_zero t v = x"
    by (simp add: record_value_def)
  have 6: "\<forall>t v. fc v = None \<longrightarrow> record_value fc sea_at_zero t v = - 9999"
    by (simp add: record_value_def)
  have 7: "\<forall>t. is_sea_type t \<longleftrightarrow> t = sea_surface \<or> t = sea_floor"
    by (simp add: is_sea_type_def)
  show ?thesis by (intro conjI 1 2 3 4 5 6 7)
qed

lemma three_records_wf:
  "\<forall>r\<in>set three_records.
             CHR '','' \<notin> set (fst r) \<and> (fst r = [] \<or> hd (fst r) \<noteq> CHR ''<'')
             \<and> (\<forall>c\<in>set (snd r). value_char c)"
  by (simp add: three_records_def sea_surface_def value_char_def)

lemma three_values:
  "map (\<lambda>r. record_value from_chars_double True (fst r) (snd r)) three_records
     = [0, - 9999, - 9999]"
  by (simp add: three_records_def record_value_def from_chars_double_def digit_char_def
      decimal_value_def is_sea_type_def sea_surface_def sea_floor_def)

theorem sea_level_record_values_witness:
  "tuple_loop from_chars_double True
        (concat (map record_line three_records) @ CHR ''<'' # ''/gml:tupleList>'') []
       = (CHR ''<'' # ''/gml:tupleList>'', [0, - 9999, - 9999])
   \<and> tuple_list_loop from_chars_double True (concat (map record_line three_records)) []
       = [0, - 9999, - 9999]"
  using sea_level_record_values[OF three_records_wf, of from_chars_double True
      "''/gml:tupleList>''" "[]"]
  by (simp only: three_values append_Nil simp_thms)

section \<open>Properties of the mesh grid builder\<close>

lemma filled_cells_length: "length (filled_cells n off i elevation) = n"
  by (simp add: filled_cells_def)

lemma filled_cells_step:
  assumes "off + i < n"
  shows "(filled_cells n off i elevation)[off + i := elevation ! i]
           = filled_cells n off (Suc i) elevation"
proof (rule nth_equalityI)
  show "length ((filled_cells n off i elevation)[off + i := elevation ! i])
          = length (filled_cells n off (Suc i) elevation)"
    by (simp add: filled_cells_def)
next
  fix k
  assume "k < length ((filled_cells n off i elevation)[off + i := elevation ! i])"
  then have k: "k < n" by (simp add: filled_cells_def)
  show "(filled_cells n off i elevation)[off + i := elevation ! i] ! k
          = filled_cells n off (Suc i) elevation ! k"
  proof (cases "k = off + i")
    case True
    then show ?thesis using k by (simp add: filled_cells_def)
  next
    case False
    then show ?thesis using k by (auto simp: filled_cells_def)
  qed
qed

lemma filled_cells_saturated:
  assumes "n \<le> off + i" and "n \<le> off + j"
  shows "filled_cells n off i elevation = filled_cells n off j elevation"
  using assms by (auto simp: filled_cells_def)

lemma filled_cells_zero: "filled_cells n off 0 elevation = replicate n (- 9999)"
  by (rule nth_equalityI) (simp_all add: filled_cells_def)

lemma size_t_of_small:
  assumes "0 \<le> i" and "i < 2 ^ 64"
  shows "size_t_of i = nat i"
  using assms by (simp add: size_t_of_def)

lemma put_at:
  assumes "flat_width a = nat x_len" and "0 \<le> y" and "0 \<le> x" and "0 \<le> x_len"
    and "nat (y * x_len + x) < length (flat_data a)"
    and "length (flat_data a) < 2 ^ 64"
    and "y < 2 ^ 64" and "x < 2 ^ 64"
  shows "put a y x v = Inr (a\<lparr>flat_data := (flat_data a)[nat (y * x_len + x) := v]\<rparr>)"
proof -
  have e: "size_t_of y * flat_width a + size_t_of x = nat (y * x_len + x)"
    using assms(1-4,7,8)
    by (simp add: size_t_of_small nat_add_distrib nat_mult_distrib)
  have "nat (y * x_len + x) < 2 ^ 64" using assms(5,6) by linarith
  then have "(size_t_of y * flat_width a + size_t_of x) mod 2 ^ 64 = nat (y * x_len + x)"
    unfolding e by simp
  then show ?thesis using assms(5) by (simp add: put_def)
qed

lemma fill_row_result:
  assumes "flat_data a = filled_cells n off i elevation"
    and "flat_width a = nat x_len"
    and "0 \<le> y" and "0 \<le> x" and "x \<le> x_len"
    and "y < y_len" and "n = nat y_len * nat x_len" and "n < 2 ^ 64"
    and "int off + int i = y * x_len + x"
    and "i \<le> length elevation"
  shows "fill_row elevation x_len y x i a
           = Inr (min (length elevation) (i + nat (x_len - x)),
                  a\<lparr>flat_data := filled_cells n off
                       (min (length elevation) (i + nat (x_len - x))) elevation\<rparr>)"
  using assms
proof (induction elevation x_len y x i a rule: fill_row.induct)
  case (1 elevation x_len y x index array)
  show ?case
  proof (cases "x < x_len \<and> index < length elevation")
    case False
    then have "min (length elevation) (index + nat (x_len - x)) = index"
      using "1.prems"(5,10) by auto
    then show ?thesis
      using False "1.prems"(1) by (subst fill_row.simps) auto
  next
    case True
    have xl: "0 \<le> x_len" using "1.prems"(4,5) by simp
    have "y * x_len + x < (y + 1) * x_len" using True by (simp add: algebra_simps)
    also have "\<dots> \<le> y_len * x_len"
      using "1.prems"(6) xl by (intro mult_right_mono) simp_all
    finally have lt: "y * x_len + x < y_len * x_len" .
    have nn: "int n = y_len * x_len"
      using "1.prems"(3,6,7) xl by simp
    have pos: "nat (y * x_len + x) = off + index"
      using "1.prems"(9) by linarith
    have inb: "off + index < n" using lt nn "1.prems"(9) by linarith
    have "int n < int (2 ^ 64)" using "1.prems"(8) by (simp only: of_nat_less_iff)
    then have ni: "int n < 2 ^ 64" by simp
    have yb: "y < 2 ^ 64"
    proof -
      have "1 \<le> x_len" using True "1.prems"(4) by simp
      then have "y_len \<le> y_len * x_len"
        using "1.prems"(3,6) by (simp add: mult_le_cancel_left1)
      then show ?thesis using "1.prems"(6) nn ni by linarith
    qed
    have xb: "x < 2 ^ 64"
    proof -
      have "1 \<le> y_len" using "1.prems"(3,6) by simp
      then have "x_len \<le> y_len * x_len"
        using xl by (simp add: mult_le_cancel_right1)
      then show ?thesis using True nn ni by linarith
    qed
    define a' where "a' = array\<lparr>flat_data := filled_cells n off (Suc index) elevation\<rparr>"
    have p: "put array y x (elevation ! index) = Inr a'"
      unfolding a'_def
      using put_at[of array x_len y x "elevation ! index"] "1.prems"(1,2,3,4,8) xl inb yb xb
      by (simp add: pos filled_cells_length filled_cells_step)
    have ih: "fill_row elevation x_len y (x + 1) (index + 1) a'
           = Inr (min (length elevation) (index + 1 + nat (x_len - (x + 1))),
                  a'\<lparr>flat_data := filled_cells n off
                       (min (length elevation) (index + 1 + nat (x_len - (x + 1)))) elevation\<rparr>)"
    proof (rule "1.IH"[OF True p])
      show "flat_data a' = filled_cells n off (index + 1) elevation" by (simp add: a'_def)
      show "flat_width a' = nat x_len" using "1.prems"(2) by (simp add: a'_def)
      show "0 \<le> y" by fact
      show "0 \<le> x + 1" using "1.prems"(4) by simp
      show "x + 1 \<le> x_len" using True by simp
      show "y < y_len" by fact
      show "n = nat y_len * nat x_len" by fact
      show "n < 2 ^ 64" by fact
      show "int off + int (index + 1) = y * x_len + (x + 1)" using "1.prems"(9) by simp
      show "index + 1 \<le> length elevation" using True by simp
    qed
    have e: "index + 1 + nat (x_len - (x + 1)) = index + nat (x_len - x)"
      using True by linarith
    show ?thesis
      using True p ih unfolding e
      by (subst fill_row.simps) (simp add: a'_def)
  qed
qed

lemma fill_rows_result:
  assumes "flat_data a = filled_cells n off i elevation"
    and "flat_width a = nat x_len"
    and "0 \<le> y" and "y \<le> y_len" and "0 \<le> cx" and "cx \<le> x_len"
    and "n = nat y_len * nat x_len" and "n < 2 ^ 64"
    and "i = length elevation \<or> int off + int i = y * x_len + cx"
    and "i \<le> length elevation"
  shows "fill_rows elevation x_len y_len y cx i a
           = Inr (a\<lparr>flat_data := filled_cells n off (length elevation) elevation\<rparr>)"
  using assms
proof (induction elevation x_len y_len y cx i a rule: fill_rows.induct)
  case (1 elevation x_len y_len y cx index array)
  have xl: "0 \<le> x_len" using "1.prems"(5,6) by simp
  have yl: "0 \<le> y_len" using "1.prems"(3,4) by simp
  have nn: "int n = y_len * x_len" using "1.prems"(7) xl yl by simp
  show ?case
  proof (cases "y < y_len \<and> index < length elevation")
    case False
    have "filled_cells n off index elevation = filled_cells n off (length elevation) elevation"
    proof (cases "index = length elevation")
      case True
      then show ?thesis by simp
    next
      case ne: False
      then have y: "y = y_len" and p: "int off + int index = y * x_len + cx"
        using False "1.prems"(4,9,10) by auto
      have "int n \<le> int off + int index" using p y nn "1.prems"(5) by simp
      then have "n \<le> off + index" by linarith
      then show ?thesis using "1.prems"(10) by (intro filled_cells_saturated) simp_all
    qed
    then have "array = array\<lparr>flat_data := filled_cells n off (length elevation) elevation\<rparr>"
      using "1.prems"(1) by simp
    then show ?thesis using False by (subst fill_rows.simps) auto
  next
    case True
    then have p: "int off + int index = y * x_len + cx" using "1.prems"(9) by auto
    define i' where "i' = min (length elevation) (index + nat (x_len - cx))"
    define a' where "a' = array\<lparr>flat_data := filled_cells n off i' elevation\<rparr>"
    have fr: "fill_row elevation x_len y cx index array = Inr (i', a')"
      unfolding i'_def a'_def
    proof (rule fill_row_result[where y_len = y_len])
      show "flat_data array = filled_cells n off index elevation" by fact
      show "flat_width array = nat x_len" by fact
      show "0 \<le> y" by fact
      show "0 \<le> cx" by fact
      show "cx \<le> x_len" by fact
      show "y < y_len" using True by simp
      show "n = nat y_len * nat x_len" by fact
      show "n < 2 ^ 64" by fact
      show "int off + int index = y * x_len + cx" by fact
      show "index \<le> length elevation" by fact
    qed
    have ih: "fill_rows elevation x_len y_len (y + 1) 0 i' a'
                = Inr (a'\<lparr>flat_data := filled_cells n off (length elevation) elevation\<rparr>)"
    proof (rule "1.IH"[OF True fr refl])
      show "flat_data a' = filled_cells n off i' elevation" by (simp add: a'_def)
      show "flat_width a' = nat x_len" using "1.prems"(2) by (simp add: a'_def)
      show "0 \<le> y + 1" using "1.prems"(3) by simp
      show "y + 1 \<le> y_len" using True by simp
      show "(0::int) \<le> 0" by simp
      show "0 \<le> x_len" by fact
      show "n = nat y_len * nat x_len" by fact
      show "n < 2 ^ 64" by fact
      show "i' \<le> length elevation" by (simp add: i'_def)
      show "i' = length elevation \<or> int off + int i' = (y + 1) * x_len + 0"
      proof (cases "i' = length elevation")
        case True
        then show ?thesis by simp
      next
        case False
        then have "i' = index + nat (x_len - cx)" by (simp add: i'_def min_def split: if_splits)
        then show ?thesis using p "1.prems"(6) by (simp add: algebra_simps)
      qed
    qed
    show ?thesis
      using True fr ih by (subst fill_rows.simps) (simp add: a'_def)
  qed
qed

lemma filled_cells_beyond:
  assumes "n \<le> off"
  shows "filled_cells n off i elevation = replicate n (- 9999)"
  using assms by (intro nth_equalityI) (simp_all add: filled_cells_def)

lemma fill_rows_from_start:
  assumes "0 \<le> x_len" and "0 \<le> y_len" and "0 \<le> start_row" and "0 \<le> start_col"
    and "n = nat y_len * nat x_len" and "n < 2 ^ 64"
    and "flat_data a = replicate n (- 9999)" and "flat_width a = nat x_len"
    and "off = nat start_row * nat x_len + min (nat start_col) (nat x_len)"
  shows "fill_rows elevation x_len y_len start_row start_col 0 a
           = Inr (a\<lparr>flat_data := filled_cells n off (length elevation) elevation\<rparr>)"
proof -
  have d0: "\<And>p. flat_data a = filled_cells n p 0 elevation"
    using assms(7) by (simp add: filled_cells_zero)
  consider (none) "\<not> (start_row < y_len \<and> 0 < length elevation)"
    | (inside) "start_row < y_len" "0 < length elevation" "start_col \<le> x_len"
    | (right) "start_row < y_len" "0 < length elevation" "x_len < start_col"
    by linarith
  then show ?thesis
  proof cases
    case none
    have "filled_cells n off (length elevation) elevation = replicate n (- 9999)"
    proof (cases "elevation = []")
      case True
      then show ?thesis by (simp add: filled_cells_zero)
    next
      case False
      then have "y_len \<le> start_row" using none by simp
      then have "nat y_len \<le> nat start_row" by simp
      then have "nat y_len * nat x_len \<le> nat start_row * nat x_len" by (rule mult_le_mono1)
      then have "n \<le> off" unfolding assms(5,9) by (rule trans_le_add1)
      then show ?thesis by (rule filled_cells_beyond)
    qed
    then have "a = a\<lparr>flat_data := filled_cells n off (length elevation) elevation\<rparr>"
      using assms(7) by simp
    then show ?thesis using none by (subst fill_rows.simps) auto
  next
    case inside
    show ?thesis
    proof (rule fill_rows_result)
      show "flat_data a = filled_cells n off 0 elevation" by (rule d0)
      show "flat_width a = nat x_len" by fact
      show "0 \<le> start_row" by fact
      show "start_row \<le> y_len" using inside(1) by simp
      show "0 \<le> start_col" by fact
      show "start_col \<le> x_len" by fact
      show "n = nat y_len * nat x_len" by fact
      show "n < 2 ^ 64" by fact
      show "0 \<le> length elevation" by simp
      have "min (nat start_col) (nat x_len) = nat start_col" using inside(3) by simp
      then have "int off + int 0 = start_row * x_len + start_col"
        unfolding assms(9) using assms(1,3,4) by simp
      then show "0 = length elevation \<or> int off + int 0 = start_row * x_len + start_col" ..
    qed
  next
    case right
    have fr: "fill_row elevation x_len start_row start_col 0 a = Inr (0, a)"
      using right(3) by (subst fill_row.simps) simp
    have rest: "fill_rows elevation x_len y_len (start_row + 1) 0 0 a
           = Inr (a\<lparr>flat_data := filled_cells n off (length elevation) elevation\<rparr>)"
    proof (rule fill_rows_result)
      show "flat_data a = filled_cells n off 0 elevation" by (rule d0)
      show "flat_width a = nat x_len" by fact
      show "0 \<le> start_row + 1" using assms(3) by simp
      show "start_row + 1 \<le> y_len" using right(1) by simp
      show "(0::int) \<le> 0" by simp
      show "0 \<le> x_len" by fact
      show "n = nat y_len * nat x_len" by fact
      show "n < 2 ^ 64" by fact
      show "0 \<le> length elevation" by simp
      have "min (nat start_col) (nat x_len) = nat x_len" using right(3) by simp
      then have "int off + int 0 = (start_row + 1) * x_len + 0"
        unfolding assms(9) using assms(1,3,4) by (simp add: algebra_simps)
      then show "0 = length elevation \<or> int off + int 0 = (start_row + 1) * x_len + 0" ..
    qed
    show ?thesis
      using right(1,2) fr rest by (subst fill_rows.simps) simp
  qed
qed

lemma take_drop_map_upt:
  assumes "j + w \<le> n"
  shows "take w (drop j (map f [0 ..< n])) = map (\<lambda>x. f (j + x)) [0 ..< w]"
  using assms by (intro nth_equalityI) simp_all

lemma to_2d_vector_filled:
  assumes "flat_data a = filled_cells (h * w) off (length elevation) elevation"
    and "flat_width a = w" and "flat_height a = h" and "h < 2 ^ 31"
  shows "to_2d_vector a = Inr (expected_grid h w off elevation)"
proof -
  have hs: "\<not> flat_height a > max_size_rows"
    using assms(3,4) by (simp add: max_size_rows_def)
  have row: "take w (drop (y * w) (filled_cells (h * w) off (length elevation) elevation))
      = map (\<lambda>x. if off \<le> y * w + x \<and> y * w + x < off + length elevation
                        then elevation ! (y * w + x - off) else - 9999) [0 ..< w]"
    if "y < h" for y
  proof -
    have "Suc y \<le> h" using that by simp
    then have "Suc y * w \<le> h * w" by (rule mult_le_mono1)
    then have "y * w + w \<le> h * w" by simp
    then show ?thesis unfolding filled_cells_def by (rule take_drop_map_upt)
  qed
  show ?thesis
    using hs row
    by (simp add: to_2d_vector_def assms(1,2,3) filled_cells_length expected_grid_def)
qed

lemma new_FlatArray2D_ok:
  assumes "0 \<le> y_len" and "y_len < 2 ^ 31" and "0 \<le> x_len" and "x_len < 2 ^ 31"
    and "nat y_len * nat x_len \<le> max_size_double"
  shows "new_FlatArray2D y_len x_len v
           = Inr \<lparr>flat_data = replicate (nat y_len * nat x_len) v, flat_width = nat x_len,
                   flat_height = nat y_len\<rparr>"
proof -
  have y: "size_t_of y_len = nat y_len" using assms(1,2) by (intro size_t_of_small) simp_all
  have x: "size_t_of x_len = nat x_len" using assms(3,4) by (intro size_t_of_small) simp_all
  have "nat y_len * nat x_len < 2 ^ 64" using assms(5) by (simp add: max_size_double_def)
  then have m: "(nat y_len * nat x_len) mod 2 ^ 64 = nat y_len * nat x_len" by simp
  show ?thesis
    unfolding new_FlatArray2D_def y x m Let_def using assms(5) by simp
qed

lemma envelope_length:
  assumes "0 \<le> hi - lo + 1" and "hi - lo + 1 < 2 ^ 31"
  shows "and_then (cast_int (hi - lo)) (\<lambda>dx. cast_int (dx + 1)) = Inr (hi - lo + 1)"
  using assms by (simp add: and_then_def cast_int_def int_in_range_def)

lemma double_to_int_nonneg:
  assumes "0 \<le> r" and "r < 2 ^ 31"
  shows "double_to_int r = Inr \<lfloor>r\<rfloor>"
proof -
  have "\<lfloor>r\<rfloor> < 2 ^ 31" using assms(2) by (simp add: floor_less_iff)
  moreover have "0 \<le> \<lfloor>r\<rfloor>" using assms(1) by simp
  ultimately show ?thesis
    using assms(1) by (simp add: double_to_int_def cast_int_def int_in_range_def)
qed

lemma double_to_int_bounded:
  assumes "\<bar>r\<bar> < 2 ^ 31"
  shows "\<exists>i. double_to_int r = Inr i"
proof (cases "0 \<le> r")
  case True
  then show ?thesis using assms double_to_int_nonneg[of r] by simp
next
  case False
  have "- (2 ^ 31) < r" using assms by linarith
  then have "- (2 ^ 31) \<le> \<lceil>r\<rceil>" by (simp add: le_ceiling_iff)
  moreover have "\<lceil>r\<rceil> \<le> 0" using False by (simp add: ceiling_le_iff)
  ultimately show ?thesis
    using False by (simp add: double_to_int_def cast_int_def int_in_range_def)
qed

lemma fill_rows_empty: "fill_rows [] x_len y_len y cx 0 a = Inr a"
  by (subst fill_rows.simps) simp

lemma expected_grid_empty:
  "expected_grid h w off [] = replicate h (replicate w (- 9999))"
proof -
  have "\<And>k. \<not> (off \<le> k \<and> k < off + length ([]::double list))" by simp
  then show ?thesis unfolding expected_grid_def by (simp only: if_False map_replicate_const length_upt diff_zero)
qed

lemma and_then_Inr: "and_then (Inr v) f = f v"
  by (simp add: and_then_def)

lemma build_grid_present:
  assumes "has_tuple_list d" and "has_grid_envelope d" and "has_start_point d"
    and "x_len = grid_high_x d - grid_low_x d + 1"
    and "y_len = grid_high_y d - grid_low_y d + 1"
    and "0 \<le> x_len" and "x_len < 2 ^ 31" and "0 \<le> y_len" and "y_len < 2 ^ 31"
    and "nat y_len * nat x_len \<le> max_size_double"
    and "double_to_int (ParsedData.start_x d) = Inr start_col"
    and "double_to_int (ParsedData.start_y d) = Inr start_row"
  shows "build_grid d
     = and_then (fill_rows (elevation_list d) x_len y_len start_row start_col 0
                  \<lparr>flat_data = replicate (nat y_len * nat x_len) (- 9999),
                   flat_width = nat x_len, flat_height = nat y_len\<rparr>) to_2d_vector"
proof -
  have x: "and_then (cast_int (grid_high_x d - grid_low_x d)) (\<lambda>dx. cast_int (dx + 1)) = Inr x_len"
    unfolding assms(4) using assms(6,7) unfolding assms(4) by (rule envelope_length)
  have y: "and_then (cast_int (grid_high_y d - grid_low_y d)) (\<lambda>dx. cast_int (dx + 1)) = Inr y_len"
    unfolding assms(5) using assms(8,9) unfolding assms(5) by (rule envelope_length)
  have n: "new_FlatArray2D y_len x_len (- 9999)
           = Inr \<lparr>flat_data = replicate (nat y_len * nat x_len) (- 9999),
                   flat_width = nat x_len, flat_height = nat y_len\<rparr>"
    using assms(8,9,6,7,10) by (rule new_FlatArray2D_ok)
  show ?thesis
    unfolding build_grid_def get_tuple_list_def get_grid_envelope_def get_start_point_def
    using assms(1,2,3)
    by (simp add: x y n assms(11,12) and_then_Inr)
qed

lemma XmlParser_result: "XmlParser fc xml = Inr (parse_loop fc True xml initial_data)"
  by (simp add: XmlParser_def parse_all_def)

lemma build_grid_missing:
  assumes "\<not> has_tuple_list d \<or> \<not> has_grid_envelope d \<or> \<not> has_start_point d"
  shows "build_grid d = Inr []"
  using assms
  by (auto simp: build_grid_def get_tuple_list_def get_grid_envelope_def get_start_point_def)

text \<open>
  Claim C1, as amended.  For a parsed mesh with tuple list, grid envelope and start
  point present, whose dimensions \<open>x_length = high_x - low_x + 1\<close> and
  \<open>y_length = high_y - low_y + 1\<close> are non-negative and fit an \<^verbatim>\<open>int\<close>, whose
  cell count fits a vector, and whose start point is non-negative and below
  \<open>2 ^ 31\<close>, the grid builder returns \<open>y_length\<close> rows of \<open>x_length\<close> cells:
  the samples fill the cells in row-major order from position
  \<open>start_y * x_length + min start_x x_length\<close> on (row \<open>start_y\<close>, column \<open>start_x\<close>;
  every later row from column 0), one sample per cell, until the grid or the
  sample stream is exhausted, and every other cell is \<open>-9999\<close>.  In particular an
  empty sample stream gives the all-sentinel grid.  The start point is truncated to
  integers first.
\<close>

theorem grid_fill_row_major:
  assumes "has_tuple_list d" and "has_grid_envelope d" and "has_start_point d"
    and "x_len = grid_high_x d - grid_low_x d + 1"
    and "y_len = grid_high_y d - grid_low_y d + 1"
    and "0 \<le> x_len" and "x_len < 2 ^ 31" and "0 \<le> y_len" and "y_len < 2 ^ 31"
    and "nat y_len * nat x_len \<le> max_size_double"
    and "0 \<le> ParsedData.start_x d" and "ParsedData.start_x d < 2 ^ 31"
    and "0 \<le> ParsedData.start_y d" and "ParsedData.start_y d < 2 ^ 31"
    and "off = nat \<lfloor>ParsedData.start_y d\<rfloor> * nat x_len
                 + min (nat \<lfloor>ParsedData.start_x d\<rfloor>) (nat x_len)"
  shows "build_grid d = Inr (expected_grid (nat y_len) (nat x_len) off (elevation_list d))
         \<and> (elevation_list d = [] \<longrightarrow>
              build_grid d = Inr (replicate (nat y_len) (replicate (nat x_len) (- 9999))))"
proof -
  define a where "a = \<lparr>flat_data = replicate (nat y_len * nat x_len) (- 9999),
                          flat_width = nat x_len, flat_height = nat y_len\<rparr>"
  define n where "n = nat y_len * nat x_len"
  have sc: "double_to_int (ParsedData.start_x d) = Inr \<lfloor>ParsedData.start_x d\<rfloor>"
    using assms(11,12) by (rule double_to_int_nonneg)
  have sr: "double_to_int (ParsedData.start_y d) = Inr \<lfloor>ParsedData.start_y d\<rfloor>"
    using assms(13,14) by (rule double_to_int_nonneg)
  have b: "build_grid d
     = and_then (fill_rows (elevation_list d) x_len y_len \<lfloor>ParsedData.start_y d\<rfloor>
                   \<lfloor>ParsedData.start_x d\<rfloor> 0 a) to_2d_vector"
    unfolding a_def using assms(1-10) sc sr by (rule build_grid_present)
  have n64: "n < 2 ^ 64" using assms(10) by (simp add: n_def max_size_double_def)
  have f: "fill_rows (elevation_list d) x_len y_len \<lfloor>ParsedData.start_y d\<rfloor>
             \<lfloor>ParsedData.start_x d\<rfloor> 0 a
           = Inr (a\<lparr>flat_data := filled_cells n off (length (elevation_list d))
                                      (elevation_list d)\<rparr>)"
  proof (rule fill_rows_from_start)
    show "0 \<le> x_len" by fact
    show "0 \<le> y_len" by fact
    show "0 \<le> \<lfloor>ParsedData.start_y d\<rfloor>" using assms(13) by simp
    show "0 \<le> \<lfloor>ParsedData.start_x d\<rfloor>" using assms(11) by simp
    show "n = nat y_len * nat x_len" by (rule n_def)
    show "n < 2 ^ 64" by (rule n64)
    show "flat_data a = replicate n (- 9999)" by (simp add: a_def n_def)
    show "flat_width a = nat x_len" by (simp add: a_def)
    show "off = nat \<lfloor>ParsedData.start_y d\<rfloor> * nat x_len
                 + min (nat \<lfloor>ParsedData.start_x d\<rfloor>) (nat x_len)" by fact
  qed
  have t: "to_2d_vector (a\<lparr>flat_data := filled_cells n off (length (elevation_list d))
                                      (elevation_list d)\<rparr>)
           = Inr (expected_grid (nat y_len) (nat x_len) off (elevation_list d))"
  proof (rule to_2d_vector_filled)
    show "flat_data (a\<lparr>flat_data := filled_cells n off (length (elevation_list d))
                                      (elevation_list d)\<rparr>)
          = filled_cells (nat y_len * nat x_len) off (length (elevation_list d)) (elevation_list d)"
      by (simp add: n_def)
    show "flat_width (a\<lparr>flat_data := filled_cells n off (length (elevation_list d))
                                      (elevation_list d)\<rparr>) = nat x_len"
      by (simp add: a_def)
    show "flat_height (a\<lparr>flat_data := filled_cells n off (length (elevation_list d))
                                      (elevation_list d)\<rparr>) = nat y_len"
      by (simp add: a_def)
    show "nat y_len < 2 ^ 31" using assms(8,9) by (simp add: nat_less_iff)
  qed
  have r: "build_grid d = Inr (expected_grid (nat y_len) (nat x_len) off (elevation_list d))"
    unfolding b f and_then_Inr by (rule t)
  show ?thesis
    using r by (simp add: expected_grid_empty)
qed

lemma ceiling_minus_one_real: "\<lceil>- 1 :: real\<rceil> = - 1"
  by (simp add: ceiling_eq_iff)

theorem grid_fill_row_major_witness:
  "build_grid small_mesh = Inr [[- 9999, 1, 2], [3, - 9999, - 9999]]"
proof -
  have e: "expected_grid 2 3 (Suc 0) [1, 2, 3] = [[- 9999, 1, 2], [3, - 9999, - 9999]]"
    by (simp add: expected_grid_def upt_conv_Cons)
  have h: "has_tuple_list small_mesh" "has_grid_envelope small_mesh" "has_start_point small_mesh"
    "3 = grid_high_x small_mesh - grid_low_x small_mesh + 1"
    "2 = grid_high_y small_mesh - grid_low_y small_mesh + 1"
    "nat 2 * nat 3 \<le> max_size_double"
    "0 \<le> ParsedData.start_x small_mesh" "ParsedData.start_x small_mesh < 2 ^ 31"
    "0 \<le> ParsedData.start_y small_mesh" "ParsedData.start_y small_mesh < 2 ^ 31"
    "1 = nat \<lfloor>ParsedData.start_y small_mesh\<rfloor> * nat 3
                 + min (nat \<lfloor>ParsedData.start_x small_mesh\<rfloor>) (nat 3)"
    by (simp_all add: small_mesh_def initial_data_def max_size_double_def)
  have "build_grid small_mesh
          = Inr (expected_grid (nat 2) (nat 3) 1 (elevation_list small_mesh))"
    using grid_fill_row_major[of small_mesh 3 2 1, OF h(1-5) _ _ _ _ h(6-11)] by simp
  then show ?thesis by (simp add: e small_mesh_def)
qed

text \<open>
  Without the bound on the start point the rule of claim C1 fails: with start point
  column \<open>- 1\<close> of row 1 in a grid of three columns, the column index is converted
  to \<^verbatim>\<open>size_t\<close> and the first sample lands in the last cell of row 0, a row
  before the start row.
\<close>

theorem negative_start_column_counterexample:
  "has_tuple_list negative_start_mesh \<and> has_grid_envelope negative_start_mesh
   \<and> has_start_point negative_start_mesh
   \<and> ParsedData.start_x negative_start_mesh = - 1
   \<and> ParsedData.start_y negative_start_mesh = 1
   \<and> build_grid negative_start_mesh = Inr [[- 9999, - 9999, 1], [2, 3, 4]]"
proof -
  define a0 where "a0 = \<lparr>flat_data = replicate (nat 2 * nat 3) (- 9999 :: double),
                            flat_width = nat 3, flat_height = nat 2\<rparr>"
  define E :: "double list" where "E = [1, 2, 3, 4, 5]"
  define a1 where "a1 = a0\<lparr>flat_data := filled_cells 6 2 1 E\<rparr>"
  define a4 where "a4 = a1\<lparr>flat_data := filled_cells 6 2 4 E\<rparr>"
  have f: "has_tuple_list negative_start_mesh" "has_grid_envelope negative_start_mesh"
    "has_start_point negative_start_mesh"
    "ParsedData.start_x negative_start_mesh = - 1"
    "ParsedData.start_y negative_start_mesh = 1"
    "elevation_list negative_start_mesh = E"
    "3 = grid_high_x negative_start_mesh - grid_low_x negative_start_mesh + 1"
    "2 = grid_high_y negative_start_mesh - grid_low_y negative_start_mesh + 1"
    "nat 2 * nat 3 \<le> max_size_double"
    by (simp_all add: negative_start_mesh_def initial_data_def max_size_double_def E_def)
  have sx: "double_to_int (ParsedData.start_x negative_start_mesh) = Inr (- 1)"
    unfolding f(4)
    by (simp add: double_to_int_def cast_int_def int_in_range_def ceiling_minus_one_real)
  have sy: "double_to_int (ParsedData.start_y negative_start_mesh) = Inr 1"
    unfolding f(5) by (simp add: double_to_int_def cast_int_def int_in_range_def)
  have b: "build_grid negative_start_mesh
             = and_then (fill_rows E 3 2 1 (- 1) 0 a0) to_2d_vector"
    unfolding a0_def f(6)[symmetric]
    by (rule build_grid_present[OF f(1,2,3,7,8) _ _ _ _ f(9) sx sy]) simp_all
  have idx: "(size_t_of 1 * flat_width a0 + size_t_of (- 1)) mod 2 ^ 64 = 2"
    by (simp add: size_t_of_def a0_def)
  have upd: "(flat_data a0)[2 := E ! 0] = filled_cells 6 2 1 E"
    by (simp add: a0_def E_def filled_cells_def upt_conv_Cons eval_nat_numeral)
  have p1: "put a0 1 (- 1) (E ! 0) = Inr a1"
    unfolding put_def Let_def idx a1_def upd[symmetric] by (simp add: a0_def)
  have r1: "fill_row E 3 1 0 1 a1 = Inr (4, a4)"
  proof -
    have "fill_row E 3 1 0 1 a1
            = Inr (min (length E) (1 + nat (3 - 0)),
                   a1\<lparr>flat_data := filled_cells 6 2 (min (length E) (1 + nat (3 - 0))) E\<rparr>)"
      by (rule fill_row_result[where y_len = 2]) (simp_all add: a1_def a0_def E_def)
    moreover have "min (length E) (1 + nat (3 - 0)) = 4" by (simp add: E_def)
    ultimately show ?thesis unfolding a4_def by (simp only:)
  qed
  have r0: "fill_row E 3 1 (- 1) 0 a0 = Inr (4, a4)"
    using p1 r1 by (subst fill_row.simps) (simp add: E_def)
  have rows: "fill_rows E 3 2 1 (- 1) 0 a0 = Inr a4"
  proof -
    have "fill_rows E 3 2 2 0 4 a4 = Inr a4" by (subst fill_rows.simps) simp
    then show ?thesis using r0 by (subst fill_rows.simps) (simp add: E_def)
  qed
  have len: "length E = 5" by (simp add: E_def)
  have "filled_cells 6 2 4 E = filled_cells (2 * 3) 2 (length E) E"
    unfolding len using filled_cells_saturated[of 6 2 4 5 E] by simp
  then have "to_2d_vector a4 = Inr (expected_grid 2 3 2 E)"
    by (intro to_2d_vector_filled) (simp_all add: a4_def a1_def a0_def)
  moreover have "expected_grid 2 3 2 E = [[- 9999, - 9999, 1], [2, 3, 4]]"
    by (simp add: expected_grid_def upt_conv_Cons E_def)
  ultimately have "build_grid negative_start_mesh = Inr [[- 9999, - 9999, 1], [2, 3, 4]]"
    unfolding b rows and_then_Inr by simp
  then show ?thesis using f(1-5) by simp
qed


text \<open>
  Claim C10.  If the parsed mesh lacks its tuple list, its grid envelope or its start
  point, the grid builder returns the empty array; so it does for a document
  without the \<^verbatim>\<open><gml:tupleList>\<close>, the \<^verbatim>\<open><gml:high>\<close> or the
  \<^verbatim>\<open><gml:startPoint>\<close> tag.  When all three are present and the sample stream
  is empty, the result is the all-sentinel grid of the declared dimensions (for
  dimensions that are non-negative and fit an \<^verbatim>\<open>int\<close>, a cell count that fits a
  vector and a start point within the range of \<^verbatim>\<open>int\<close>).
\<close>

theorem missing_field_gives_empty_array:
  "(\<not> has_tuple_list d \<or> \<not> has_grid_envelope d \<or> \<not> has_start_point d \<longrightarrow>
      build_grid d = Inr [])
   \<and> (\<not> sublist ''<gml:tupleList>'' xml \<or> \<not> sublist ''<gml:high>'' xml
        \<or> \<not> sublist ''<gml:startPoint>'' xml \<longrightarrow>
      get_np_array fc xml = Inr [])
   \<and> (has_tuple_list d \<and> has_grid_envelope d \<and> has_start_point d
        \<and> elevation_list d = []
        \<and> x_len = grid_high_x d - grid_low_x d + 1
        \<and> y_len = grid_high_y d - grid_low_y d + 1
        \<and> 0 \<le> x_len \<and> x_len < 2 ^ 31 \<and> 0 \<le> y_len \<and> y_len < 2 ^ 31
        \<and> nat y_len * nat x_len \<le> max_size_double
        \<and> \<bar>ParsedData.start_x d\<bar> < 2 ^ 31 \<and> \<bar>ParsedData.start_y d\<bar> < 2 ^ 31 \<longrightarrow>
      build_grid d = Inr (replicate (nat y_len) (replicate (nat x_len) (- 9999))))"
proof (intro conjI impI)
  assume "\<not> has_tuple_list d \<or> \<not> has_grid_envelope d \<or> \<not> has_start_point d"
  then show "build_grid d = Inr []" by (rule build_grid_missing)
next
  let ?d = "parse_loop fc True xml initial_data"
  assume a: "\<not> sublist ''<gml:tupleList>'' xml \<or> \<not> sublist ''<gml:high>'' xml
        \<or> \<not> sublist ''<gml:startPoint>'' xml"
  have "\<not> has_tuple_list ?d \<or> \<not> has_grid_envelope ?d \<or> \<not> has_start_point ?d"
    using a absent_tuple_list[of xml fc True initial_data]
      absent_grid_high[of xml fc True initial_data]
      absent_start_point[of xml fc True initial_data]
    by (auto simp: initial_data_def)
  then have "build_grid ?d = Inr []" by (rule build_grid_missing)
  then show "get_np_array fc xml = Inr []"
    by (simp add: get_np_array_def XmlParser_result and_then_Inr)
next
  assume a: "has_tuple_list d \<and> has_grid_envelope d \<and> has_start_point d
        \<and> elevation_list d = []
        \<and> x_len = grid_high_x d - grid_low_x d + 1
        \<and> y_len = grid_high_y d - grid_low_y d + 1
        \<and> 0 \<le> x_len \<and> x_len < 2 ^ 31 \<and> 0 \<le> y_len \<and> y_len < 2 ^ 31
        \<and> nat y_len * nat x_len \<le> max_size_double
        \<and> \<bar>ParsedData.start_x d\<bar> < 2 ^ 31 \<and> \<bar>ParsedData.start_y d\<bar> < 2 ^ 31"
  define a0 where "a0 = \<lparr>flat_data = replicate (nat y_len * nat x_len) (- 9999 :: double),
                            flat_width = nat x_len, flat_height = nat y_len\<rparr>"
  obtain start_col where sc: "double_to_int (ParsedData.start_x d) = Inr start_col"
    using a double_to_int_bounded by blast
  obtain start_row where sr: "double_to_int (ParsedData.start_y d) = Inr start_row"
    using a double_to_int_bounded by blast
  have "build_grid d = and_then (fill_rows (elevation_list d) x_len y_len start_row start_col 0 a0)
                         to_2d_vector"
    unfolding a0_def
  proof (rule build_grid_present)
    show "has_tuple_list d" "has_grid_envelope d" "has_start_point d"
      "x_len = grid_high_x d - grid_low_x d + 1" "y_len = grid_high_y d - grid_low_y d + 1"
      "0 \<le> x_len" "x_len < 2 ^ 31" "0 \<le> y_len" "y_len < 2 ^ 31"
      "nat y_len * nat x_len \<le> max_size_double"
      using a by blast+
    show "double_to_int (ParsedData.start_x d) = Inr start_col" by (rule sc)
    show "double_to_int (ParsedData.start_y d) = Inr start_row" by (rule sr)
  qed
  then have b: "build_grid d = to_2d_vector a0"
    using a by (simp add: fill_rows_empty and_then_Inr)
  have "to_2d_vector a0 = Inr (expected_grid (nat y_len) (nat x_len) 0 [])"
  proof (rule to_2d_vector_filled)
    show "flat_data a0 = filled_cells (nat y_len * nat x_len) 0 (length []) []"
      by (simp add: a0_def filled_cells_zero)
    show "flat_width a0 = nat x_len" by (simp add: a0_def)
    show "flat_height a0 = nat y_len" by (simp add: a0_def)
    show "nat y_len < 2 ^ 31" using a by (simp add: nat_less_iff)
  qed
  then show "build_grid d = Inr (replicate (nat y_len) (replicate (nat x_len) (- 9999)))"
    unfolding b by (simp add: expected_grid_empty)
qed

theorem missing_field_gives_empty_array_witness:
  "build_grid initial_data = Inr []
   \<and> get_np_array from_chars_double ''<mesh>1</mesh>'' = Inr []
   \<and> build_grid (small_mesh\<lparr>elevation_list := []\<rparr>)
       = Inr [[- 9999, - 9999, - 9999], [- 9999, - 9999, - 9999]]"
proof -
  have h1: "\<not> has_tuple_list initial_data \<or> \<not> has_grid_envelope initial_data
            \<or> \<not> has_start_point initial_data"
    by (simp add: initial_data_def)
  have h2: "\<not> sublist ''<gml:tupleList>'' ''<mesh>1</mesh>''
            \<or> \<not> sublist ''<gml:high>'' ''<mesh>1</mesh>''
            \<or> \<not> sublist ''<gml:startPoint>'' ''<mesh>1</mesh>''"
    by (simp add: sublist_Cons_right)
  let ?d = "small_mesh\<lparr>elevation_list := []\<rparr>"
  have h3: "has_tuple_list ?d \<and> has_grid_envelope ?d \<and> has_start_point ?d
        \<and> elevation_list ?d = []
        \<and> 3 = grid_high_x ?d - grid_low_x ?d + 1
        \<and> 2 = grid_high_y ?d - grid_low_y ?d + 1
        \<and> (0::int) \<le> 3 \<and> (3::int) < 2 ^ 31 \<and> (0::int) \<le> 2 \<and> (2::int) < 2 ^ 31
        \<and> nat 2 * nat 3 \<le> max_size_double
        \<and> \<bar>ParsedData.start_x ?d\<bar> < 2 ^ 31 \<and> \<bar>ParsedData.start_y ?d\<bar> < 2 ^ 31"
    by (simp add: small_mesh_def initial_data_def max_size_double_def)
  have r: "replicate (nat 2) (replicate (nat 3) (- 9999 :: double))
           = [[- 9999, - 9999, - 9999], [- 9999, - 9999, - 9999]]"
    by (simp add: eval_nat_numeral)
  have 1: "build_grid initial_data = Inr []"
    using missing_field_gives_empty_array[of initial_data] h1 by blast
  have 2: "get_np_array from_chars_double ''<mesh>1</mesh>'' = Inr []"
    using missing_field_gives_empty_array[where xml = "''<mesh>1</mesh>''" and fc = from_chars_double]
      h2 by blast
  have 3: "build_grid ?d = Inr (replicate (nat 2) (replicate (nat 3) (- 9999)))"
    using missing_field_gives_empty_array[where d = ?d and x_len = 3 and y_len = 2] h3 by blast
  show ?thesis using 1 2 3 unfolding r by (intro conjI)
qed

section \<open>Properties of the mosaic assembler\<close>




lemma int32_min: "int32 (- 2147483648) = - 2147483648"
  by (simp add: int32_def)




lemma memcpy_row_length:
  "memcpy_row dst dst_start src src_start copy_len = Inr r \<Longrightarrow> length r = length dst"
  by (auto simp: memcpy_row_def split: if_splits)









text \<open>
  Claim C9 at a failing input.  A mesh of one cell at the column offset
  \<open>2147483647\<close> of a canvas of one cell: \<^verbatim>\<open>dst_start + copy_len\<close> overflows to
  \<open>-2147483648\<close>, which is not greater than \<open>total_x\<close>, so the copy is not
  clipped and \<^verbatim>\<open>memcpy\<close> writes one cell at column \<open>2147483647\<close> of a row of one
  cell.  The offset is reached from two meshes one cell wide, the first
  \<open>1 / 2 ^ 30\<close> degrees wide and the second starting \<open>2 - 1 / 2 ^ 30\<close> degrees
  to its right.
\<close>

theorem clip_overflow_counterexample:
  "int_in_range 2147483647
   \<and> clip_copy 1 2147483647 1 (int32 (int (length [5 :: double]))) = (0, 2147483647, 1)
   \<and> place_mesh 1 1 0 2147483647 1 1 [[5]] [[- 9999]] = Inl OutOfBounds
   \<and> combine_meta_data_and_contents exact [narrow_mesh, far_mesh] [[[5]], [[7]]] narrow_bounds
       = Inl OutOfBounds"
proof -
  have i: "int32 0 = 0" "int32 1 = 1" "int32 2147483647 = 2147483647"
    "int32 2147483648 = - 2147483648"
    by (simp_all add: int32_def)
  have cc: "clip_copy 1 2147483647 1 1 = (0, 2147483647, 1)"
    by (simp add: clip_copy_def i)
  have pm: "place_mesh 1 1 0 2147483647 1 1 [[x]] [[v]] = Inl OutOfBounds" for x v :: double
    by (simp add: place_mesh_def place_row_def cc i memcpy_row_def)
  have pm0: "place_mesh 1 1 0 0 1 1 [[5]] [[- 9999]] = Inr [[5]]"
    by (simp add: place_mesh_def place_row_def clip_copy_def i memcpy_row_def)
  have r1: "std_round 1 = 1" "std_round 0 = 0" "std_round 2147483647 = 2147483647"
    by (simp_all add: std_round_def)
  have c: "calc_image_size exact [narrow_mesh, far_mesh] narrow_bounds = Inr (1, 1)"
    by (simp add: calc_image_size_def narrow_mesh_def narrow_bounds_def exact_def fsub_def
        r1 cast_int_def int_in_range_def and_then_def)
  have p0: "place_one exact 1 1 (Finite (1 / 1073741824)) (Finite (- 1)) narrow_bounds
              (narrow_mesh, [[5]]) [[- 9999]] = Inr [[5]]"
    by (simp add: place_one_def narrow_mesh_def narrow_bounds_def exact_def fsub_def
        r1 cast_int_def int_in_range_def and_then_def i pm0)
  have p1: "place_one exact 1 1 (Finite (1 / 1073741824)) (Finite (- 1)) narrow_bounds
              (far_mesh, [[7]]) [[5]] = Inl OutOfBounds"
    by (simp add: place_one_def far_mesh_def narrow_mesh_def narrow_bounds_def exact_def fsub_def
        r1 cast_int_def int_in_range_def and_then_def i pm)
  have "combine_meta_data_and_contents exact [narrow_mesh, far_mesh] [[[5]], [[7]]] narrow_bounds
       = Inl OutOfBounds"
    unfolding combine_meta_data_and_contents_def c
    by (simp add: and_then_def new_canvas_def narrow_mesh_def exact_def fsub_def Let_def
        p0[unfolded narrow_mesh_def] p1)
  then show ?thesis using cc pm by (simp add: i int_in_range_def)
qed








section \<open>Properties of the mosaic merger\<close>












text \<open>
  Claim C4 at a failing input.  The later raster declares the no-data value NaN (the
  tag \<open>nan\<close> of its file) and its first pixel is NaN, a no-data pixel; the canvas
  holds 5 and 7.  The test \<^verbatim>\<open>value != src.nodata_value\<close> is true of every
  pixel when the no-data value is NaN, so the no-data pixel overwrites the 5.
\<close>

theorem nan_nodata_overwrites_counterexample:
  "has_nodata nan_then_three \<and> nodata_value nan_then_three = NaN
   \<and> data nan_then_three ! 0 = NaN
   \<and> merge_dataset nan_then_three 0 0 2 1 [Finite 5, Finite 7] = Inr [NaN, Finite 3]"
proof -
  have i: "int32 0 = 0" "int32 1 = 1" by (simp_all add: int32_def)
  show ?thesis
    by (simp add: merge_dataset_def merge_pixel_def nan_then_three_def upt_rec i
        fne_def feq_def)
qed

section \<open>Properties of the reprojector\<close>
















text \<open>
  Claim C5 at a failing input.  A destination pixel whose source position is column
  \<open>2147483647\<close> of row 0: \<^verbatim>\<open>src_col0 + 1\<close> overflows to \<open>-2147483648\<close>, which
  is less than the width, so the test of the neighbourhood passes and the pixel at
  column \<open>2147483647\<close> of a raster two pixels wide is read.
\<close>

theorem neighbour_overflow_counterexample:
  "int_in_range 2147483647
   \<and> source_position four_pixels (\<lambda>p. (4294967295 / 2, - (1 / 2))) 0 0 2 2 0 0
       = Inr (2147483647, 0)
   \<and> bilinear exact exact four_pixels 2147483647 0 2147483647 0 = Inl OutOfBounds
   \<and> resample_pixels exact exact four_pixels (\<lambda>p. (4294967295 / 2, - (1 / 2))) 0 0 2 2 1 1
       = Inl OutOfBounds"
proof -
  have r: "int_in_range 2147483647" "int_in_range 0" by (simp_all add: int_in_range_def)
  have sp: "source_position four_pixels (\<lambda>p. (4294967295 / 2, - (1 / 2))) 0 0 2 2 0 0
              = Inr (2147483647, 0)"
    by (simp add: source_position_def four_pixels_def and_then_def ddiv_def)
  have f: "width four_pixels = 2" "height four_pixels = 2" "has_nodata four_pixels"
    "nodata_value four_pixels = Finite (- 9999)"
    by (simp_all add: four_pixels_def)
  have i: "int32 1 = 1" "int32 2147483648 = - 2147483648" by (simp_all add: int32_def)
  have rd: "read_pixel four_pixels 0 2147483647 = Inl OutOfBounds"
    by (simp add: read_pixel_def four_pixels_def)
  have bl: "bilinear exact exact four_pixels 2147483647 0 2147483647 0 = Inl OutOfBounds"
    by (simp add: bilinear_def f rd and_then_def i)
  have fl: "\<lfloor>2147483647 :: real\<rfloor> = 2147483647" "\<lfloor>0 :: real\<rfloor> = 0" by simp_all
  have px: "resample_pixel exact exact four_pixels (\<lambda>p. (4294967295 / 2, - (1 / 2))) 0 0 2 2 1 0 0
              [Finite (- 9999)] = Inl OutOfBounds"
    by (simp add: resample_pixel_def sp and_then_def cast_int_def r fl bl)
  have ev: "resample_pixels exact exact four_pixels (\<lambda>p. (4294967295 / 2, - (1 / 2))) 0 0 2 2 1 1
              = Inl OutOfBounds"
    by (simp add: resample_pixels_def f px)
  show ?thesis using r(1) sp bl ev by blast
qed

subsection \<open>The whole operation: validation, EPSG code and replacement of the file\<close>

lemma temp_path_example: "replace_extension ''out/a.tif'' ''.tmp.tif'' = ''out/a.tmp.tif''"
  by (simp add: replace_extension_def extension_of_def filename_of_def)

lemma grid_example:
  "destination_grid four_pixels (\<lambda>p. p) = Inr (0, 0, 111000, 111000, 1, 1)"
proof -
  have c: "\<lceil>1 / 55500 :: real\<rceil> = 1" by (simp add: ceiling_eq_iff)
  show ?thesis
    by (simp add: destination_grid_def four_pixels_def and_then_def ddiv_def cast_int_def
        int_in_range_def Let_def c)
qed

lemma pixels_example:
  "resample_pixels exact exact four_pixels (\<lambda>p. p) 0 0 111000 111000 1 1
     = Inr [Finite (- 9999)]"
proof -
  have sp: "source_position four_pixels (\<lambda>p. p) 0 0 111000 111000 0 0
              = Inr (110999 / 2, 110999 / 2)"
    by (simp add: source_position_def four_pixels_def and_then_def ddiv_def)
  have fl: "\<lfloor>110999 / 2 :: real\<rfloor> = 55499" by (simp add: floor_eq_iff)
  have f: "width four_pixels = 2" "height four_pixels = 2" "has_nodata four_pixels"
    "nodata_value four_pixels = Finite (- 9999)"
    by (simp_all add: four_pixels_def)
  have i: "int32 55500 = 55500" by (simp add: int32_def)
  have bl: "bilinear exact exact four_pixels (110999 / 2) (110999 / 2) 55499 55499 = Inr None"
    by (simp add: bilinear_def f i)
  have px: "resample_pixel exact exact four_pixels (\<lambda>p. p) 0 0 111000 111000 1 0 0
              [Finite (- 9999)] = Inr [Finite (- 9999)]"
    by (simp add: resample_pixel_def sp and_then_def cast_int_def int_in_range_def fl bl)
  show ?thesis by (simp add: resample_pixels_def f px)
qed

lemma code_examples:
  "output_epsg_code ''ESRI:54009'' = Inr 0" "output_epsg_code ''EPSG:3857'' = Inr 3857"
  by (simp_all add: output_epsg_code_def stoi_def is_space_def is_digit_def digits_value_def
      int_in_range_def)


lemma last_component_split:
  "\<exists>pre. xs = pre @ rev (takeWhile P (rev xs))"
proof -
  have "rev xs = takeWhile P (rev xs) @ dropWhile P (rev xs)" by simp
  then have "xs = rev (dropWhile P (rev xs)) @ rev (takeWhile P (rev xs))"
    by (metis rev_append rev_rev_ident)
  then show ?thesis by blast
qed

lemma split_at_last:
  assumes "c \<in> set xs"
  shows "\<exists>pre. xs = pre @ c # rev (takeWhile (\<lambda>x. x \<noteq> c) (rev xs))"
proof -
  let ?P = "\<lambda>x. x \<noteq> c"
  have ne: "dropWhile ?P (rev xs) \<noteq> []"
    using assms by (simp add: dropWhile_eq_Nil_conv)
  then obtain h d where d: "dropWhile ?P (rev xs) = h # d"
    by (cases "dropWhile ?P (rev xs)") auto
  have "\<not> ?P (hd (dropWhile ?P (rev xs)))" using ne by (rule hd_dropWhile)
  then have h: "h = c" unfolding d by simp
  have "rev xs = takeWhile ?P (rev xs) @ dropWhile ?P (rev xs)" by simp
  then have "rev (rev xs) = rev (takeWhile ?P (rev xs) @ c # d)" unfolding d h by simp
  then have "xs = rev d @ c # rev (takeWhile ?P (rev xs))" by simp
  then show ?thesis by blast
qed

lemma extension_of_suffix: "\<exists>pre. p = pre @ extension_of p"
proof (cases "extension_of p = []")
  case True
  then show ?thesis by simp
next
  case False
  let ?f = "filename_of p"
  let ?e = "rev (takeWhile (\<lambda>c. c \<noteq> CHR ''.'') (rev ?f))"
  from False have dot: "CHR ''.'' \<in> set ?f" and ext: "extension_of p = CHR ''.'' # ?e"
    by (auto simp: extension_of_def Let_def split: if_splits)
  from split_at_last[OF dot] obtain d where f: "?f = d @ CHR ''.'' # ?e" by blast
  obtain q where q: "p = q @ ?f"
    unfolding filename_of_def using last_component_split by blast
  have "p = (q @ d) @ extension_of p"
    unfolding ext by (subst q, subst f) simp
  then show ?thesis by blast
qed

lemma extension_of_one_dot:
  "extension_of p = [] \<or> (\<exists>e. extension_of p = CHR ''.'' # e \<and> CHR ''.'' \<notin> set e)"
proof (cases "extension_of p = []")
  case True
  then show ?thesis by simp
next
  case False
  let ?f = "filename_of p"
  let ?e = "rev (takeWhile (\<lambda>c. c \<noteq> CHR ''.'') (rev ?f))"
  from False have ext: "extension_of p = CHR ''.'' # ?e"
    by (auto simp: extension_of_def Let_def split: if_splits)
  have "CHR ''.'' \<notin> set ?e" by (auto dest: set_takeWhileD)
  then show ?thesis using ext by blast
qed

lemma replace_extension_differs: "replace_extension p ''.tmp.tif'' \<noteq> p"
proof
  assume eq: "replace_extension p ''.tmp.tif'' = p"
  obtain pre where p: "p = pre @ extension_of p" using extension_of_suffix by blast
  have "take (length p - length (extension_of p)) p = pre"
    by (subst (2) p, subst (1) p) simp
  then have "pre @ ''.tmp.tif'' = pre @ extension_of p"
    using eq p unfolding replace_extension_def by simp
  then have e: "extension_of p = ''.tmp.tif''" by simp
  from extension_of_one_dot[of p] show False unfolding e by simp
qed


lemma write_and_replace_success:
  assumes "write_and_replace env p temp d fs = (Inr (), fs')" and "temp \<noteq> p"
  shows "fs' p = Some d"
  using assms
  by (auto simp: write_and_replace_def write_geotiff_def fs_remove_def fs_rename_def
      split: if_splits)

lemma resampling_success_epsg:
  assumes "resampling env p crs fs = (Inr (), fs')"
    and "\<not> proj_is_equivalent_to env ''EPSG:4326'' crs"
  shows "\<exists>d. fs' p = Some d \<and> output_epsg_code crs = Inr (epsg d)"
proof -
  from assms obtain d where w: "write_and_replace env p (replace_extension p ''.tmp.tif'') d fs
      = (Inr (), fs')" and c: "output_epsg_code crs = Inr (epsg d)"
    by (auto simp: resampling_def Let_def split: option.splits if_splits sum.splits prod.splits)
  from write_and_replace_success[OF w replace_extension_differs] c show ?thesis by blast
qed

lemma resampling_invalid_target:
  assumes "read_geotiff fs p = Some src_data" and "proj_context_create env"
    and "\<not> proj_create env crs"
  shows "resampling env p crs fs = (Inl InvalidArgument, fs)"
  using assms by (simp add: resampling_def)

lemma digit_not_sign_or_space:
  assumes "is_digit c"
  shows "\<not> is_space c" "c \<noteq> CHR ''-''" "c \<noteq> CHR ''+''"
  using assms by (auto simp: is_digit_def is_space_def)

lemma stoi_digits:
  assumes "ds \<noteq> []" and "\<forall>c\<in>set ds. is_digit c" and "int_in_range (int (digits_value ds))"
  shows "stoi ds = Inr (int (digits_value ds))"
proof -
  obtain c cs where ds: "ds = c # cs" using assms(1) by (cases ds) auto
  have c: "is_digit c" using assms(2) ds by simp
  note n = digit_not_sign_or_space[OF c]
  have d: "dropWhile is_space ds = ds" using n(1) ds by simp
  have t: "takeWhile is_digit ds = ds" using assms(2) by (simp add: takeWhile_eq_all_conv)
  show ?thesis
    unfolding stoi_def d Let_def using n(2,3) assms(1,3) t by (simp add: ds)
qed

text \<open>
  Claim C8, as amended.  For a readable raster and a PROJ context: a target string
  that \<^verbatim>\<open>proj_create\<close> does not accept makes the whole operation fail with
  \<open>InvalidArgument\<close> and leaves the file system as it was.  When the operation
  succeeds and is not the no-op of equivalent systems, the raster at the output path
  carries the EPSG code read by \<^verbatim>\<open>std::stoi\<close> from the target string after its
  prefix \<open>EPSG:\<close>, and the code 0 for every target string without that prefix,
  whatever its authority.  For \<open>EPSG:\<close> followed by digits that fit an
  \<^verbatim>\<open>int\<close> the code is their decimal value.
\<close>

theorem epsg_code_of_target:
  assumes "read_geotiff fs output_path = Some src_data" and "proj_context_create env"
  shows "(\<not> proj_create env output_epsg \<longrightarrow>
            resampling env output_path output_epsg fs = (Inl InvalidArgument, fs))
       \<and> (\<forall>fs'. resampling env output_path output_epsg fs = (Inr (), fs')
               \<and> \<not> proj_is_equivalent_to env ''EPSG:4326'' output_epsg \<longrightarrow>
             (\<exists>d. fs' output_path = Some d
                 \<and> (if take 5 output_epsg = ''EPSG:''
                    then stoi (drop 5 output_epsg) = Inr (epsg d)
                    else epsg d = 0)))
       \<and> (\<forall>ds. ds \<noteq> [] \<and> (\<forall>c\<in>set ds. is_digit c) \<and> int_in_range (int (digits_value ds)) \<longrightarrow>
             output_epsg_code (''EPSG:'' @ ds) = Inr (int (digits_value ds)))"
proof (intro conjI allI impI)
  assume "\<not> proj_create env output_epsg"
  from resampling_invalid_target[OF assms this]
  show "resampling env output_path output_epsg fs = (Inl InvalidArgument, fs)" .
next
  fix fs'
  assume a: "resampling env output_path output_epsg fs = (Inr (), fs')
               \<and> \<not> proj_is_equivalent_to env ''EPSG:4326'' output_epsg"
  then obtain d where d: "fs' output_path = Some d" "output_epsg_code output_epsg = Inr (epsg d)"
    using resampling_success_epsg by blast
  have "if take 5 output_epsg = ''EPSG:''
                    then stoi (drop 5 output_epsg) = Inr (epsg d)
                    else epsg d = 0"
    using d(2) by (auto simp: output_epsg_code_def split: if_splits)
  then show "\<exists>d. fs' output_path = Some d
                 \<and> (if take 5 output_epsg = ''EPSG:''
                    then stoi (drop 5 output_epsg) = Inr (epsg d)
                    else epsg d = 0)"
    using d(1) by blast
next
  fix ds
  assume "ds \<noteq> [] \<and> (\<forall>c\<in>set ds. is_digit c) \<and> int_in_range (int (digits_value ds))"
  then show "output_epsg_code (''EPSG:'' @ ds) = Inr (int (digits_value ds))"
    by (simp add: output_epsg_code_def stoi_digits)
qed

lemma run_example:
  assumes that: "env' = all_succeed \<or> env' = rename_fails"
    and "output_epsg_code crs = Inr code" and "proj_create all_succeed crs"
    and "crs \<noteq> ''EPSG:4326''"
  shows "resampling env' ''out/a.tif'' crs one_raster =
     write_and_replace env' ''out/a.tif'' ''out/a.tmp.tif''
       \<lparr>data = [Finite (- 9999)], width = 1, height = 1,
        geo_transform = [0, 111000, 0, 0, 0, - 111000], epsg = code,
        nodata_value = Finite (- 9999), has_nodata = True\<rparr> one_raster"
proof -
  have e: "proj_context_create env'" "proj_create env' = proj_create all_succeed"
    "proj_is_equivalent_to env' = (\<lambda>a b. a = b)"
    "proj_create_crs_to_crs env' = (\<lambda>a b. Some (\<lambda>p. p))"
    "round_double env' = exact" "round_float env' = exact"
    using that by (auto simp: all_succeed_def rename_fails_def)
  have r: "read_geotiff one_raster ''out/a.tif'' = Some four_pixels"
    by (simp add: read_geotiff_def one_raster_def)
  have p4: "proj_create all_succeed ''EPSG:4326''" by (simp add: all_succeed_def)
  have f: "nodata_value four_pixels = Finite (- 9999)" "has_nodata four_pixels"
    by (simp_all add: four_pixels_def)
  show ?thesis
    using assms(4)
    by (simp add: resampling_def r e p4 assms(2,3) grid_example pixels_example
        temp_path_example f)
qed

text \<open>
  The target \<open>ESRI:54009\<close> has the shape \<open>AUTHORITY:CODE\<close> and is accepted; the
  operation succeeds and the output raster carries the code 0, not 54009.
\<close>

theorem epsg_code_other_authority_counterexample:
  "proj_create all_succeed ''ESRI:54009''
   \<and> fst (resampling all_succeed ''out/a.tif'' ''ESRI:54009'' one_raster) = Inr ()
   \<and> map_option epsg (snd (resampling all_succeed ''out/a.tif'' ''ESRI:54009'' one_raster)
        ''out/a.tif'') = Some 0"
proof -
  have p: "proj_create all_succeed ''ESRI:54009''" by (simp add: all_succeed_def)
  have "resampling all_succeed ''out/a.tif'' ''ESRI:54009'' one_raster =
     write_and_replace all_succeed ''out/a.tif'' ''out/a.tmp.tif''
       \<lparr>data = [Finite (- 9999)], width = 1, height = 1,
        geo_transform = [0, 111000, 0, 0, 0, - 111000], epsg = 0,
        nodata_value = Finite (- 9999), has_nodata = True\<rparr> one_raster"
    by (rule run_example[OF _ code_examples(1) p]) simp_all
  then show ?thesis
    using p
    by (simp add: write_and_replace_def write_geotiff_def fs_remove_def fs_rename_def
        all_succeed_def)
qed

text \<open>
  Claim C6 at a failing input.  The temporary file is written, the original is
  removed, and the rename of the temporary file fails: the operation ends with the
  exception, and the original raster is no longer at the output path.
\<close>

theorem replace_not_atomic_on_rename_failure:
  "one_raster ''out/a.tif'' = Some four_pixels
   \<and> fst (resampling rename_fails ''out/a.tif'' ''EPSG:3857'' one_raster) = Inl FilesystemError
   \<and> snd (resampling rename_fails ''out/a.tif'' ''EPSG:3857'' one_raster) ''out/a.tif'' = None"
proof -
  have p: "proj_create all_succeed ''EPSG:3857''" by (simp add: all_succeed_def)
  have "resampling rename_fails ''out/a.tif'' ''EPSG:3857'' one_raster =
     write_and_replace rename_fails ''out/a.tif'' ''out/a.tmp.tif''
       \<lparr>data = [Finite (- 9999)], width = 1, height = 1,
        geo_transform = [0, 111000, 0, 0, 0, - 111000], epsg = 3857,
        nodata_value = Finite (- 9999), has_nodata = True\<rparr> one_raster"
    by (rule run_example[OF _ code_examples(2) p]) simp_all
  then show ?thesis
    by (simp add: write_and_replace_def write_geotiff_def fs_remove_def fs_rename_def
        all_succeed_def rename_fails_def one_raster_def)
qed

theorem replace_not_atomic_on_rename_failure_witness:
  "snd (resampling rename_fails ''out/a.tif'' ''EPSG:3857'' one_raster) ''out/a.tif''
     \<noteq> one_raster ''out/a.tif''"
  using replace_not_atomic_on_rename_failure by simp

theorem epsg_code_of_target_witness:
  "read_geotiff one_raster ''out/a.tif'' = Some four_pixels
   \<and> proj_context_create all_succeed
   \<and> resampling all_succeed ''out/a.tif'' ''bogus'' one_raster = (Inl InvalidArgument, one_raster)
   \<and> fst (resampling all_succeed ''out/a.tif'' ''EPSG:3857'' one_raster) = Inr ()
   \<and> map_option epsg (snd (resampling all_succeed ''out/a.tif'' ''EPSG:3857'' one_raster)
        ''out/a.tif'') = Some 3857
   \<and> output_epsg_code (''EPSG:'' @ ''3857'') = Inr (int (digits_value ''3857''))"
proof -
  have h1: "read_geotiff one_raster ''out/a.tif'' = Some four_pixels"
    by (simp add: read_geotiff_def one_raster_def)
  have h2: "proj_context_create all_succeed" by (simp add: all_succeed_def)
  note t = epsg_code_of_target[OF h1 h2]
  have b: "\<not> proj_create all_succeed ''bogus''" by (simp add: all_succeed_def)
  have inv: "resampling all_succeed ''out/a.tif'' ''bogus'' one_raster
      = (Inl InvalidArgument, one_raster)"
    using t[of "''bogus''"] b by blast
  have dg: "''3857'' \<noteq> [] \<and> (\<forall>c\<in>set ''3857''. is_digit c)
      \<and> int_in_range (int (digits_value ''3857''))"
    by (simp add: is_digit_def digits_value_def int_in_range_def)
  have code: "output_epsg_code (''EPSG:'' @ ''3857'') = Inr (int (digits_value ''3857''))"
    using t[of "''EPSG:3857''"] dg by blast
  have p: "proj_create all_succeed ''EPSG:3857''" by (simp add: all_succeed_def)
  have "resampling all_succeed ''out/a.tif'' ''EPSG:3857'' one_raster =
     write_and_replace all_succeed ''out/a.tif'' ''out/a.tmp.tif''
       \<lparr>data = [Finite (- 9999)], width = 1, height = 1,
        geo_transform = [0, 111000, 0, 0, 0, - 111000], epsg = 3857,
        nodata_value = Finite (- 9999), has_nodata = True\<rparr> one_raster"
    by (rule run_example[OF _ code_examples(2) p]) simp_all
  then have run: "fst (resampling all_succeed ''out/a.tif'' ''EPSG:3857'' one_raster) = Inr ()
     \<and> map_option epsg (snd (resampling all_succeed ''out/a.tif'' ''EPSG:3857'' one_raster)
        ''out/a.tif'') = Some 3857"
    by (simp add: write_and_replace_def write_geotiff_def fs_remove_def fs_rename_def
        all_succeed_def)
  show ?thesis using h1 h2 inv run code by blast
qed


lemma write_and_replace_keeps_original:
  assumes "write_and_replace env p temp d fs = (Inl e, fs')" and "temp \<noteq> p"
    and "e \<noteq> FilesystemError \<or> \<not> remove_succeeds env p"
  shows "fs' p = fs p"
  using assms
  by (auto simp: write_and_replace_def write_geotiff_def fs_remove_def fs_rename_def
      split: if_splits)

lemma resampling_keeps_original:
  assumes "resampling env p crs fs = (Inl e, fs')"
    and "e \<noteq> FilesystemError \<or> \<not> remove_succeeds env p"
  shows "fs' p = fs p"
proof (cases "\<exists>d. write_and_replace env p (replace_extension p ''.tmp.tif'') d fs = (Inl e, fs')")
  case True
  then obtain d where "write_and_replace env p (replace_extension p ''.tmp.tif'') d fs = (Inl e, fs')"
    by blast
  from write_and_replace_keeps_original[OF this replace_extension_differs assms(2)]
  show ?thesis .
next
  case False
  with assms(1) have "fs' = fs"
    by (auto simp: resampling_def Let_def split: option.splits if_splits sum.splits prod.splits)
  then show ?thesis by simp
qed

end
